theory Spec2Isabelle
  imports Complex_Main "HOL-Library.Multiset"
begin

section \<open>Conventions of the embedding\<close>

text \<open>
  The shared utilities of the queue engine (\<^verbatim>\<open>packages/shared/src/utils\<close>) are static
  methods over TypeScript \<^verbatim>\<open>number\<close>s, which are IEEE 754 binary64 values. The type
  \<open>number\<close> below holds the finite values, the two infinities and \<^verbatim>\<open>NaN\<close>, and every
  arithmetic operation of the code is the exact operation on the reals followed by
  rounding to the nearest binary64 value, ties to even (\<open>binary64\<close>). The two zeros are
  one value: they are equal under every comparison of the code, and no division of the
  embedded functions has a divisor that can be zero.

  The position arithmetic of \<open>estimateTimeUntilPosition\<close> and \<open>calculateOptimalServers\<close>
  is kept on \<^typ>\<open>real\<close> with exact arithmetic and an \<^typ>\<open>int\<close> result: on the whole
  numbers that positions, queue lengths and service times are, the products and the
  results of \<^verbatim>\<open>Math.round\<close> and \<^verbatim>\<open>Math.ceil\<close> are the same.

  A parameter with a default value is an \<^typ>\<open>'a option\<close>: \<open>None\<close> is the omitted
  (\<^verbatim>\<open>undefined\<close>) argument.

  What the code reads from the platform is an explicit first parameter of the functions
  that read it: \<open>rnd\<close>, the value returned by \<^verbatim>\<open>Math.random()\<close>; \<open>now\<close>, the time value of
  \<^verbatim>\<open>new Date()\<close> in milliseconds; the engine's behaviour where ECMAScript leaves it open
  (\<open>Engine\<close>); and the implementation-approximated functions of \<^verbatim>\<open>Math\<close> (\<open>MathLib\<close>).
\<close>

definition dflt :: "'a \<Rightarrow> 'a option \<Rightarrow> 'a" where
  "dflt d v = (case v of None \<Rightarrow> d | Some x \<Rightarrow> x)"

text \<open>\<^verbatim>\<open>Math.round\<close> rounds to the nearest integer, a half towards plus infinity.\<close>

definition Math_round :: "real \<Rightarrow> int" where
  "Math_round x = \<lfloor>x + 1 / 2\<rfloor>"

definition Math_floor :: "real \<Rightarrow> int" where
  "Math_floor x = \<lfloor>x\<rfloor>"


definition Math_trunc :: "real \<Rightarrow> int" where
  "Math_trunc x = (if 0 \<le> x then \<lfloor>x\<rfloor> else \<lceil>x\<rceil>)"

subsection \<open>Numbers\<close>

text \<open>
  Rounding to binary64. \<open>rne\<close> rounds a real to the nearest integer, a tie to the even
  one. A binary64 value is \<open>m * 2 ^ e\<close> with \<open>\<bar>m\<bar> < 2 ^ 53\<close> and \<open>- 1074 \<le> e \<le> 971\<close>; the
  values next to \<open>x\<close> are the multiples of \<open>2 ^ expo x\<close>, where the exponent is that of the
  binade of \<open>x\<close>, and \<open>- 1074\<close> for a subnormal \<open>x\<close>. \<open>round_real\<close> is the rounding without
  the overflow, which \<open>binary64\<close> adds: a result of magnitude \<open>2 ^ 1024\<close> is an infinity.
\<close>

definition rne :: "real \<Rightarrow> int" where
  "rne q = (let f = \<lfloor>q\<rfloor>; d = q - of_int f
            in if d < 1 / 2 then f else if 1 / 2 < d then f + 1
               else if even f then f else f + 1)"

definition expo :: "real \<Rightarrow> int" where
  "expo x = max (\<lfloor>log 2 \<bar>x\<bar>\<rfloor> - 52) (- 1074)"

definition round_real :: "real \<Rightarrow> real" where
  "round_real x = of_int (rne (x / 2 powi expo x)) * 2 powi expo x"

definition is_double :: "real \<Rightarrow> bool" where
  "is_double d = (round_real d = d \<and> \<bar>d\<bar> < 2 powi 1024)"

datatype number = Fin real | PosInf | NegInf | NaN

definition binary64 :: "real \<Rightarrow> number" where
  "binary64 x =
     (let r = round_real x
      in if 2 powi 1024 \<le> r then PosInf
         else if r \<le> - (2 powi 1024) then NegInf
         else Fin r)"

text \<open>A decimal literal of the source denotes the binary64 value nearest to it.\<close>

definition lit :: "real \<Rightarrow> number" where
  "lit x = binary64 x"

text \<open>The operators \<^verbatim>\<open>-x\<close>, \<^verbatim>\<open>+\<close>, \<^verbatim>\<open>-\<close>, \<^verbatim>\<open>*\<close>, \<^verbatim>\<open>/\<close> and \<^verbatim>\<open>%\<close> on numbers.\<close>

fun js_neg :: "number \<Rightarrow> number" where
  "js_neg (Fin x) = Fin (- x)"
| "js_neg PosInf = NegInf"
| "js_neg NegInf = PosInf"
| "js_neg NaN = NaN"

fun js_add :: "number \<Rightarrow> number \<Rightarrow> number" where
  "js_add (Fin x) (Fin y) = binary64 (x + y)"
| "js_add NaN _ = NaN"
| "js_add _ NaN = NaN"
| "js_add PosInf NegInf = NaN"
| "js_add NegInf PosInf = NaN"
| "js_add PosInf _ = PosInf"
| "js_add _ PosInf = PosInf"
| "js_add NegInf _ = NegInf"
| "js_add _ NegInf = NegInf"

definition js_sub :: "number \<Rightarrow> number \<Rightarrow> number" where
  "js_sub a b = js_add a (js_neg b)"

fun js_mul :: "number \<Rightarrow> number \<Rightarrow> number" where
  "js_mul (Fin x) (Fin y) = binary64 (x * y)"
| "js_mul NaN _ = NaN"
| "js_mul _ NaN = NaN"
| "js_mul (Fin x) PosInf = (if x = 0 then NaN else if 0 < x then PosInf else NegInf)"
| "js_mul (Fin x) NegInf = (if x = 0 then NaN else if 0 < x then NegInf else PosInf)"
| "js_mul PosInf (Fin y) = (if y = 0 then NaN else if 0 < y then PosInf else NegInf)"
| "js_mul NegInf (Fin y) = (if y = 0 then NaN else if 0 < y then NegInf else PosInf)"
| "js_mul PosInf PosInf = PosInf"
| "js_mul NegInf NegInf = PosInf"
| "js_mul PosInf NegInf = NegInf"
| "js_mul NegInf PosInf = NegInf"

text \<open>A zero divisor is read as the positive zero.\<close>

fun js_div :: "number \<Rightarrow> number \<Rightarrow> number" where
  "js_div (Fin x) (Fin y) =
     (if y = 0 then (if x = 0 then NaN else if 0 < x then PosInf else NegInf)
      else binary64 (x / y))"
| "js_div NaN _ = NaN"
| "js_div _ NaN = NaN"
| "js_div (Fin x) _ = Fin 0"
| "js_div PosInf (Fin y) = (if 0 \<le> y then PosInf else NegInf)"
| "js_div NegInf (Fin y) = (if 0 \<le> y then NegInf else PosInf)"
| "js_div _ _ = NaN"

text \<open>
  The remainder \<^verbatim>\<open>a % b\<close> is exact: the quotient is truncated towards zero, so the result
  has the sign of \<open>a\<close>.
\<close>

fun js_rem :: "number \<Rightarrow> number \<Rightarrow> number" where
  "js_rem (Fin x) (Fin y) = (if y = 0 then NaN else Fin (x - y * of_int (Math_trunc (x / y))))"
| "js_rem NaN _ = NaN"
| "js_rem _ NaN = NaN"
| "js_rem (Fin x) _ = Fin x"
| "js_rem _ _ = NaN"

text \<open>The comparisons \<^verbatim>\<open><\<close>, \<^verbatim>\<open>===\<close>, \<^verbatim>\<open><=\<close> and \<^verbatim>\<open>>\<close>; every comparison with \<^verbatim>\<open>NaN\<close> is false.\<close>

fun js_lt :: "number \<Rightarrow> number \<Rightarrow> bool" where
  "js_lt (Fin x) (Fin y) = (x < y)"
| "js_lt NaN _ = False"
| "js_lt _ NaN = False"
| "js_lt _ NegInf = False"
| "js_lt NegInf _ = True"
| "js_lt PosInf _ = False"
| "js_lt _ PosInf = True"

fun js_eq :: "number \<Rightarrow> number \<Rightarrow> bool" where
  "js_eq NaN _ = False"
| "js_eq _ NaN = False"
| "js_eq a b = (a = b)"

definition js_le :: "number \<Rightarrow> number \<Rightarrow> bool" where
  "js_le a b = (js_lt a b \<or> js_eq a b)"

definition js_gt :: "number \<Rightarrow> number \<Rightarrow> bool" where
  "js_gt a b = js_lt b a"

text \<open>
  \<^verbatim>\<open>Math.max\<close> and \<^verbatim>\<open>Math.min\<close> of two arguments, \<^verbatim>\<open>Math.round\<close>, \<^verbatim>\<open>Math.floor\<close> and
  \<^verbatim>\<open>Math.abs\<close>; their results are exact.
\<close>

definition js_max :: "number \<Rightarrow> number \<Rightarrow> number" where
  "js_max a b = (if a = NaN \<or> b = NaN then NaN else if js_lt a b then b else a)"

definition js_min :: "number \<Rightarrow> number \<Rightarrow> number" where
  "js_min a b = (if a = NaN \<or> b = NaN then NaN else if js_lt b a then b else a)"

fun js_round :: "number \<Rightarrow> number" where
  "js_round (Fin x) = Fin (of_int (Math_round x))"
| "js_round a = a"

fun js_floor :: "number \<Rightarrow> number" where
  "js_floor (Fin x) = Fin (of_int (Math_floor x))"
| "js_floor a = a"

fun js_abs :: "number \<Rightarrow> number" where
  "js_abs (Fin x) = Fin \<bar>x\<bar>"
| "js_abs NegInf = PosInf"
| "js_abs a = a"

text \<open>
  The time value of \<^verbatim>\<open>new Date(t)\<close>: \<open>t\<close> truncated to whole milliseconds, and \<^verbatim>\<open>NaN\<close> (an
  invalid date) beyond 8.64e15 ms.
\<close>

definition TimeClip :: "number \<Rightarrow> number" where
  "TimeClip t =
     (case t of
        Fin x \<Rightarrow> if 8640000000000000 < \<bar>x\<bar> then NaN else Fin (of_int (Math_trunc x))
      | _ \<Rightarrow> NaN)"

section \<open>QueueUtils\<close>

subsection \<open>Wait time\<close>

text \<open>
  \<^verbatim>\<open>calculateWaitTime(position, averageServiceTime, varianceServiceTime = 0.2)\<close>; \<open>rnd\<close> is
  the value of \<^verbatim>\<open>Math.random()\<close>, which is read only when the variance is positive.
\<close>

definition calculateWaitTime :: "number \<Rightarrow> number \<Rightarrow> number \<Rightarrow> number option \<Rightarrow> number" where
  "calculateWaitTime rnd position averageServiceTime varianceServiceTime' =
     (let varianceServiceTime = dflt (lit 0.2) varianceServiceTime';
          waitTime = js_mul position averageServiceTime;
          waitTime =
            (if js_gt varianceServiceTime (Fin 0)
             then let varianceFactor =
                        js_add (Fin 1)
                          (js_mul (js_sub (js_mul rnd (Fin 2)) (Fin 1)) varianceServiceTime)
                  in js_mul waitTime varianceFactor
             else waitTime)
      in js_max (Fin 0) (js_round waitTime))"

subsection \<open>Queue entry status\<close>

datatype QueueEntryStatus = WAITING | CALLED | SERVED | NOSHOW | CANCELLED

definition isActiveStatus :: "QueueEntryStatus \<Rightarrow> bool" where
  "isActiveStatus status = (status \<in> set [WAITING, CALLED])"

definition isCompletedStatus :: "QueueEntryStatus \<Rightarrow> bool" where
  "isCompletedStatus status = (status \<in> set [SERVED, NOSHOW, CANCELLED])"

subsection \<open>Position arithmetic\<close>


text \<open>
  The other numeric operations, on numbers. \<open>adjustForNoShowProbability\<close> takes the
  platform's \<^verbatim>\<open>Math.exp\<close> as its first parameter.
\<close>

definition estimateServedInTime :: "number \<Rightarrow> number \<Rightarrow> number option \<Rightarrow> number" where
  "estimateServedInTime timePeriod averageServiceTime numServers' =
     (let numServers = dflt (Fin 1) numServers'
      in if js_le averageServiceTime (Fin 0) then Fin 0
         else js_floor (js_div (js_mul timePeriod numServers) averageServiceTime))"


definition calculateNoShowProbability :: "number \<Rightarrow> number \<Rightarrow> number" where
  "calculateNoShowProbability totalNoShows totalEntries =
     (if js_le totalEntries (Fin 0) then Fin 0
      else js_min (Fin 1) (js_max (Fin 0) (js_div totalNoShows totalEntries)))"

definition adjustForNoShowProbability ::
  "(number \<Rightarrow> number) \<Rightarrow> number \<Rightarrow> number \<Rightarrow> number \<Rightarrow> number" where
  "adjustForNoShowProbability Math_exp estimatedWaitTime noShowProbability position =
     (if js_le noShowProbability (Fin 0) \<or> js_le position (Fin 0) then estimatedWaitTime
      else let adjustmentFactor =
                 js_sub (Fin 1)
                   (js_mul noShowProbability
                      (js_sub (Fin 1) (Math_exp (js_div (js_neg position) (Fin 10)))))
           in js_round (js_mul estimatedWaitTime adjustmentFactor))"

subsection \<open>Recommended leave time\<close>

text \<open>
  The options object of \<^verbatim>\<open>calculateRecommendedLeaveTime\<close>; an omitted option is \<open>None\<close>
  and takes the default of the destructuring pattern. The option \<^verbatim>\<open>bufferTime\<close> is the
  buffer as a fraction of the estimated wait. A \<^verbatim>\<open>Date\<close> is its time value in
  milliseconds, and \<^verbatim>\<open>new Date(t)\<close> is \<open>TimeClip t\<close>.
\<close>

record LeaveTimeOptions =
  opt_varianceServiceTime :: "number option"
  opt_bufferTime :: "number option"
  opt_minBufferTime :: "number option"
  opt_maxBufferTime :: "number option"
  opt_currentTime :: "number option"

definition no_options :: LeaveTimeOptions where
  "no_options = \<lparr>opt_varianceServiceTime = None, opt_bufferTime = None,
     opt_minBufferTime = None, opt_maxBufferTime = None, opt_currentTime = None\<rparr>"

datatype Confidence = high | medium | low

record LeaveTimeRecommendation =
  position :: number
  estimatedWaitTime :: number
  travelTime :: number
  bufferTime :: number
  recommendedLeaveIn :: number
  leaveAt :: number
  confidence :: Confidence

definition calculateRecommendedLeaveTime ::
  "number \<Rightarrow> number \<Rightarrow> number \<Rightarrow> number \<Rightarrow> number \<Rightarrow> LeaveTimeOptions
   \<Rightarrow> LeaveTimeRecommendation" where
  "calculateRecommendedLeaveTime rnd now pos averageServiceTime travel options =
     (let varianceServiceTime = dflt (lit 0.2) (opt_varianceServiceTime options);
          bufferFraction = dflt (lit 0.2) (opt_bufferTime options);
          minBufferTime = dflt (js_mul (Fin 5) (Fin 60)) (opt_minBufferTime options);
          maxBufferTime = dflt (js_mul (Fin 30) (Fin 60)) (opt_maxBufferTime options);
          currentTime = dflt now (opt_currentTime options);
          estimated = calculateWaitTime rnd pos averageServiceTime (Some varianceServiceTime);
          calculatedBuffer =
            js_min (js_max (js_round (js_mul estimated bufferFraction)) minBufferTime)
                   maxBufferTime;
          leaveIn = js_max (Fin 0) (js_sub (js_sub estimated travel) calculatedBuffer);
          leaveAtTime = TimeClip (js_add currentTime (js_mul leaveIn (Fin 1000)));
          conf = high;
          conf = (if js_gt pos (Fin 10) then medium else conf);
          conf = (if js_gt pos (Fin 20) then low else conf)
      in \<lparr>position = pos, estimatedWaitTime = estimated, travelTime = travel,
          bufferTime = calculatedBuffer, recommendedLeaveIn = leaveIn,
          leaveAt = leaveAtTime, confidence = conf\<rparr>)"

subsection \<open>Completion times on several servers\<close>

text \<open>
  A slot of \<^verbatim>\<open>serverEndTimes\<close> holds a number. With an empty array \<^verbatim>\<open>Math.min()\<close> is
  \<^verbatim>\<open>Infinity\<close>, \<^verbatim>\<open>indexOf\<close> is \<open>-1\<close>, and the code reads and writes the property \<^verbatim>\<open>-1\<close> of
  the array, which starts \<^verbatim>\<open>undefined\<close>; the same happens when a slot holds \<^verbatim>\<open>NaN\<close>, which
  \<^verbatim>\<open>indexOf\<close> never finds.
\<close>

datatype slot = Num number | Undefined

datatype error = RangeError | Error string

text \<open>
  An item of the queue: \<^verbatim>\<open>T extends { serviceTime: number }\<close>, with the optional property
  \<^verbatim>\<open>position\<close> that the comparator looks for; the record's extension part stands for the
  other properties of \<open>T\<close>.
\<close>

record QueueItem =
  serviceTime :: number
  item_position :: "number option"

record 'a Assignment =
  item :: 'a
  startTime :: slot
  endTime :: number

definition compareItems :: "'a QueueItem_scheme \<Rightarrow> 'a QueueItem_scheme \<Rightarrow> number" where
  "compareItems a b =
     (case (item_position a, item_position b) of
        (Some pa, Some pb) \<Rightarrow> js_sub pa pb
      | _ \<Rightarrow> Fin 0)"

text \<open>
  What ECMAScript leaves to the engine: the order in which \<^verbatim>\<open>Array.prototype.sort\<close>
  leaves a list on which the comparator is not consistent, and the largest number of
  arguments of a call, which bounds the spread \<^verbatim>\<open>Math.min(...serverEndTimes)\<close> (a longer
  array raises a \<^verbatim>\<open>RangeError\<close>).
\<close>

record 'a Engine =
  sortInconsistent :: "'a list \<Rightarrow> 'a list"
  maxArguments :: nat

text \<open>
  \<^verbatim>\<open>[...queueData].sort(compare)\<close> sorts a copy. The sort reads only the sign of the
  comparator's result, \<^verbatim>\<open>NaN\<close> as zero. Where the comparator is consistent on the list
  (its results are not \<^verbatim>\<open>NaN\<close>, its equality is an equivalence and its two strict orders
  are transitive), the sort is stable and its result is the one of a stable insertion
  sort. Where it is not, as on a list where some items have a position and others do
  not, the order is the engine's.
\<close>

definition comparatorSign :: "number \<Rightarrow> int" where
  "comparatorSign v = (if js_lt v (Fin 0) then - 1 else if js_gt v (Fin 0) then 1 else 0)"

definition consistent_on :: "('a \<Rightarrow> 'a \<Rightarrow> number) \<Rightarrow> 'a list \<Rightarrow> bool" where
  "consistent_on cmp xs =
     (\<forall>a\<in>set xs. \<forall>b\<in>set xs. \<forall>c\<in>set xs.
        cmp a b \<noteq> NaN
        \<and> comparatorSign (cmp a a) = 0
        \<and> (comparatorSign (cmp a b) = 0 \<longrightarrow> comparatorSign (cmp b a) = 0)
        \<and> (comparatorSign (cmp a b) = 0 \<and> comparatorSign (cmp b c) = 0
             \<longrightarrow> comparatorSign (cmp a c) = 0)
        \<and> (comparatorSign (cmp a b) < 0 \<and> comparatorSign (cmp b c) < 0
             \<longrightarrow> comparatorSign (cmp a c) < 0)
        \<and> (comparatorSign (cmp a b) > 0 \<and> comparatorSign (cmp b c) > 0
             \<longrightarrow> comparatorSign (cmp a c) > 0))"

fun insert_sorted :: "('a \<Rightarrow> 'a \<Rightarrow> number) \<Rightarrow> 'a \<Rightarrow> 'a list \<Rightarrow> 'a list" where
  "insert_sorted cmp x [] = [x]"
| "insert_sorted cmp x (y # ys) =
     (if comparatorSign (cmp x y) \<le> 0 then x # y # ys else y # insert_sorted cmp x ys)"

definition stable_sort :: "('a \<Rightarrow> 'a \<Rightarrow> number) \<Rightarrow> 'a list \<Rightarrow> 'a list" where
  "stable_sort cmp xs = foldr (insert_sorted cmp) xs []"

definition sortCopy :: "'a Engine \<Rightarrow> ('a \<Rightarrow> 'a \<Rightarrow> number) \<Rightarrow> 'a list \<Rightarrow> 'a list" where
  "sortCopy engine cmp xs =
     (if consistent_on cmp xs then stable_sort cmp xs else sortInconsistent engine xs)"

text \<open>
  \<^verbatim>\<open>Math.min(...xs)\<close>, which is \<^verbatim>\<open>Infinity\<close> for no argument and \<^verbatim>\<open>NaN\<close> when an argument is,
  and \<^verbatim>\<open>xs.indexOf(v)\<close>, which compares with \<^verbatim>\<open>===\<close>.
\<close>

definition Math_min :: "number list \<Rightarrow> number" where
  "Math_min xs = fold (\<lambda>x m. js_min m x) xs PosInf"

fun indexOf_from :: "number list \<Rightarrow> number \<Rightarrow> int \<Rightarrow> int" where
  "indexOf_from [] v i = - 1"
| "indexOf_from (x # xs) v i = (if js_eq x v then i else indexOf_from xs v (i + 1))"

definition indexOf :: "number list \<Rightarrow> number \<Rightarrow> int" where
  "indexOf xs v = indexOf_from xs v 0"

text \<open>\<^verbatim>\<open>startTime + item.serviceTime\<close>, where \<^verbatim>\<open>startTime\<close> was read from the array.\<close>

definition js_plus :: "slot \<Rightarrow> number \<Rightarrow> number" where
  "js_plus v t = (case v of Num s \<Rightarrow> js_add s t | Undefined \<Rightarrow> NaN)"

text \<open>
  The state of the array \<^verbatim>\<open>serverEndTimes\<close>: its elements, and its property \<^verbatim>\<open>-1\<close>.
  \<open>assignServer\<close> is the callback of \<^verbatim>\<open>sortedQueue.map\<close>; it returns the server index
  with the assignment, and the updated array.
\<close>

type_synonym servers = "number list \<times> slot"

definition assignServer ::
  "servers \<Rightarrow> 'a QueueItem_scheme \<Rightarrow> (int \<times> 'a QueueItem_scheme Assignment) \<times> servers" where
  "assignServer st x =
     (let serverEndTimes = fst st; minusOne = snd st;
          serverIndex = indexOf serverEndTimes (Math_min serverEndTimes);
          start = (if serverIndex < 0 then minusOne else Num (serverEndTimes ! nat serverIndex));
          end' = js_plus start (serviceTime x)
      in ((serverIndex, \<lparr>item = x, startTime = start, endTime = end'\<rparr>),
          (if serverIndex < 0 then (serverEndTimes, Num end')
           else (serverEndTimes[nat serverIndex := end'], minusOne))))"

fun assignAll ::
  "servers \<Rightarrow> 'a QueueItem_scheme list \<Rightarrow> (int \<times> 'a QueueItem_scheme Assignment) list" where
  "assignAll st [] = []"
| "assignAll st (x # xs) = fst (assignServer st x) # assignAll (snd (assignServer st x)) xs"

text \<open>The array \<^verbatim>\<open>serverEndTimes\<close> after the items \<open>xs\<close> have been assigned.\<close>

definition serversAfter :: "servers \<Rightarrow> 'a QueueItem_scheme list \<Rightarrow> servers" where
  "serversAfter st xs = fold (\<lambda>x s. snd (assignServer s x)) xs st"

text \<open>
  \<^verbatim>\<open>Array(numServers)\<close> raises a \<^verbatim>\<open>RangeError\<close> unless its argument is a whole number from
  0 to \<open>2 ^ 32 - 1\<close>. The default of \<open>numServers\<close> is 1.
\<close>

definition valid_array_length :: "number \<Rightarrow> bool" where
  "valid_array_length n =
     (case n of Fin k \<Rightarrow> k = of_int \<lfloor>k\<rfloor> \<and> 0 \<le> k \<and> k \<le> 4294967295 | _ \<Rightarrow> False)"

definition array_length :: "number \<Rightarrow> nat" where
  "array_length n = (case n of Fin k \<Rightarrow> nat \<lfloor>k\<rfloor> | _ \<Rightarrow> 0)"

definition serverTrace ::
  "'a QueueItem_scheme Engine \<Rightarrow> 'a QueueItem_scheme list \<Rightarrow> number
   \<Rightarrow> (int \<times> 'a QueueItem_scheme Assignment) list" where
  "serverTrace engine queueData numServers =
     assignAll (replicate (array_length numServers) (Fin 0), Undefined)
       (sortCopy engine compareItems queueData)"

definition calculateCompletionTimes ::
  "'a QueueItem_scheme Engine \<Rightarrow> 'a QueueItem_scheme list \<Rightarrow> number option
   \<Rightarrow> error + 'a QueueItem_scheme Assignment list" where
  "calculateCompletionTimes engine queueData numServers' =
     (let numServers = dflt (Fin 1) numServers'
      in if length queueData = 0 then Inr []
         else if \<not> valid_array_length numServers then Inl RangeError
         else if maxArguments engine < array_length numServers then Inl RangeError
         else Inr (map snd (serverTrace engine queueData numServers)))"

text \<open>The item \<^verbatim>\<open>{ serviceTime: t }\<close>, with no other property.\<close>

definition plain_item :: "number \<Rightarrow> QueueItem" where
  "plain_item t = \<lparr>serviceTime = t, item_position = None\<rparr>"

text \<open>
  An engine to evaluate examples on: it sorts every list by insertion and takes up to
  65535 arguments.
\<close>

definition insertion_engine :: "'a QueueItem_scheme Engine" where
  "insertion_engine =
     \<lparr>sortInconsistent = stable_sort compareItems, maxArguments = 65535\<rparr>"

section \<open>TimeUtils\<close>

definition MS_IN_SECOND :: number where "MS_IN_SECOND = Fin 1000"
definition MS_IN_MINUTE :: number where "MS_IN_MINUTE = js_mul (Fin 60) MS_IN_SECOND"
definition MS_IN_HOUR :: number where "MS_IN_HOUR = js_mul (Fin 60) MS_IN_MINUTE"
definition MS_IN_DAY :: number where "MS_IN_DAY = js_mul (Fin 24) MS_IN_HOUR"
definition MS_IN_WEEK :: number where "MS_IN_WEEK = js_mul (Fin 7) MS_IN_DAY"

text \<open>
  A unit argument is a string at run time; the type \<^verbatim>\<open>TimeUnit\<close> lists the supported
  time units, and the parameter type of \<^verbatim>\<open>startOf\<close> and \<^verbatim>\<open>endOf\<close> the supported
  calendar periods.
\<close>

definition TimeUnit :: "string list" where
  "TimeUnit = [''milliseconds'', ''seconds'', ''minutes'', ''hours'', ''days'', ''weeks'']"

definition CalendarUnit :: "string list" where
  "CalendarUnit = [''year'', ''month'', ''week'', ''day'', ''hour'', ''minute'', ''second'']"

definition toMilliseconds :: "number \<Rightarrow> string \<Rightarrow> error + number" where
  "toMilliseconds v unit =
     (if unit = ''milliseconds'' then Inr v
      else if unit = ''seconds'' then Inr (js_mul v MS_IN_SECOND)
      else if unit = ''minutes'' then Inr (js_mul v MS_IN_MINUTE)
      else if unit = ''hours'' then Inr (js_mul v MS_IN_HOUR)
      else if unit = ''days'' then Inr (js_mul v MS_IN_DAY)
      else if unit = ''weeks'' then Inr (js_mul v MS_IN_WEEK)
      else Inl (Error (''Unsupported time unit: '' @ unit)))"

text \<open>
  \<^verbatim>\<open>dateDiff(date1, date2 = new Date(), unit = 'milliseconds')\<close>; a date argument is given
  by the time value of \<^verbatim>\<open>new Date(date)\<close>, which is \<^verbatim>\<open>NaN\<close> for an invalid date.
\<close>

definition dateDiff :: "number \<Rightarrow> number \<Rightarrow> number option \<Rightarrow> string option \<Rightarrow> error + number" where
  "dateDiff now date1 date2 unit' =
     (let d1 = date1; d2 = dflt now date2; unit = dflt ''milliseconds'' unit';
          diffMs = js_abs (js_sub d2 d1)
      in if unit = ''milliseconds'' then Inr diffMs
         else if unit = ''seconds'' then Inr (js_div diffMs MS_IN_SECOND)
         else if unit = ''minutes'' then Inr (js_div diffMs MS_IN_MINUTE)
         else if unit = ''hours'' then Inr (js_div diffMs MS_IN_HOUR)
         else if unit = ''days'' then Inr (js_div diffMs MS_IN_DAY)
         else if unit = ''weeks'' then Inr (js_div diffMs MS_IN_WEEK)
         else Inl (Error (''Unsupported time unit: '' @ unit)))"

text \<open>
  \<^verbatim>\<open>startOf\<close> and \<^verbatim>\<open>endOf\<close> read the local-time fields of \<^verbatim>\<open>d = new Date(date)\<close> and
  build a date from local-time components. The fields of \<open>d\<close> in the host's time zone
  are a record named after the getters, and \<open>None\<close> is an invalid date, whose getters
  return \<^verbatim>\<open>NaN\<close>, so that the date built is invalid too. The result is the list of the
  components given to the \<^verbatim>\<open>Date\<close> constructor, which the platform normalises (a day 0 is
  the last day of the month before). \<^verbatim>\<open>new Date(d.setDate(diff))\<close> is \<open>d\<close> with its day of
  the month replaced.
\<close>

record LocalDate =
  getFullYear :: int
  getMonth :: int
  getDate :: int
  getDay :: int
  getHours :: int
  getMinutes :: int
  getSeconds :: int
  getMilliseconds :: int

datatype Date = Date "int list" | InvalidDate

definition startOf :: "LocalDate option \<Rightarrow> string \<Rightarrow> error + Date" where
  "startOf date unit =
     (if unit \<notin> set [''year'', ''month'', ''week'', ''day'', ''hour'', ''minute'', ''second'']
      then Inl (Error (''Unsupported unit: '' @ unit))
      else case date of
        None \<Rightarrow> Inr InvalidDate
      | Some d \<Rightarrow>
         (if unit = ''year'' then Inr (Date [getFullYear d, 0, 1])
          else if unit = ''month'' then Inr (Date [getFullYear d, getMonth d, 1])
          else if unit = ''week'' then
            (let day = getDay d;
                 diff = getDate d - day + (if day = 0 then - 6 else 1)
             in Inr (Date [getFullYear d, getMonth d, diff, getHours d, getMinutes d,
                           getSeconds d, getMilliseconds d]))
          else if unit = ''day'' then Inr (Date [getFullYear d, getMonth d, getDate d])
          else if unit = ''hour'' then
            Inr (Date [getFullYear d, getMonth d, getDate d, getHours d])
          else if unit = ''minute'' then
            Inr (Date [getFullYear d, getMonth d, getDate d, getHours d, getMinutes d])
          else
            Inr (Date [getFullYear d, getMonth d, getDate d, getHours d, getMinutes d,
                       getSeconds d])))"

definition endOf :: "LocalDate option \<Rightarrow> string \<Rightarrow> error + Date" where
  "endOf date unit =
     (if unit \<notin> set [''year'', ''month'', ''week'', ''day'', ''hour'', ''minute'', ''second'']
      then Inl (Error (''Unsupported unit: '' @ unit))
      else case date of
        None \<Rightarrow> Inr InvalidDate
      | Some d \<Rightarrow>
         (if unit = ''year'' then Inr (Date [getFullYear d + 1, 0, 0, 23, 59, 59, 999])
          else if unit = ''month'' then
            Inr (Date [getFullYear d, getMonth d + 1, 0, 23, 59, 59, 999])
          else if unit = ''week'' then
            (let day = getDay d;
                 diff = getDate d - day + (if day = 0 then - 6 else 1) + 6
             in Inr (Date [getFullYear d, getMonth d, diff, 23, 59, 59, 999]))
          else if unit = ''day'' then
            Inr (Date [getFullYear d, getMonth d, getDate d + 1, 0, 0, 0, 0])
          else if unit = ''hour'' then
            Inr (Date [getFullYear d, getMonth d, getDate d, getHours d + 1, 0, 0, 0])
          else if unit = ''minute'' then
            Inr (Date [getFullYear d, getMonth d, getDate d, getHours d, getMinutes d + 1,
                       0, 0])
          else
            Inr (Date [getFullYear d, getMonth d, getDate d, getHours d, getMinutes d,
                       getSeconds d + 1, 0])))"

subsection \<open>parseDuration\<close>

text \<open>
  The regular expression \<^verbatim>\<open>/(\d+)([smhdw])/g\<close> is run with \<^verbatim>\<open>exec\<close> until it fails. A
  match starts at a digit, takes the whole run of digits that starts there (\<^verbatim>\<open>\d+\<close> is
  greedy, and a shorter run is followed by a digit, not by a unit letter) and the unit
  letter after the run. When the run is not followed by a unit letter, no position in
  the run matches, and the search goes on behind the run. \<open>exec_all\<close> lists the
  successive matches, as the groups 1 and 2. A string is a list of characters; every
  character other than the ten digits only separates matches.
\<close>

definition is_digit :: "char \<Rightarrow> bool" where
  "is_digit c = (c \<in> set ''0123456789'')"

definition is_unit_letter :: "char \<Rightarrow> bool" where
  "is_unit_letter c = (c \<in> set ''smhdw'')"

function exec_all :: "string \<Rightarrow> (string \<times> char) list" where
  "exec_all [] = []"
| "exec_all (c # cs) =
     (if is_digit c
      then (case dropWhile is_digit cs of
              [] \<Rightarrow> []
            | u # rest \<Rightarrow>
                if is_unit_letter u
                then (c # takeWhile is_digit cs, u) # exec_all rest
                else exec_all (u # rest))
      else exec_all cs)"
  by pat_completeness auto
termination
proof (relation "measure length")
  show "wf (measure length)" by simp
next
  fix c :: char and cs u rest
  assume "dropWhile is_digit cs = u # rest"
  then have "length (u # rest) \<le> length cs"
    by (metis length_dropWhile_le)
  then show "(rest, c # cs) \<in> measure length" by simp
next
  fix c :: char and cs u rest
  assume "dropWhile is_digit cs = u # rest"
  then have "length (u # rest) \<le> length cs"
    by (metis length_dropWhile_le)
  then show "(u # rest, c # cs) \<in> measure length" by simp
next
  fix c :: char and cs :: string
  show "(cs, c # cs) \<in> measure length" by simp
qed

text \<open>
  \<^verbatim>\<open>parseInt(digits, 10)\<close> on a string of decimal digits: the number nearest to the
  decimal value, which is \<^verbatim>\<open>Infinity\<close> for a run of more than 308 digits that does not
  start with zeros.
\<close>

definition digit_value :: "char \<Rightarrow> nat" where
  "digit_value c = of_char c - 48"

definition decimal :: "string \<Rightarrow> nat" where
  "decimal ds = foldl (\<lambda>n c. 10 * n + digit_value c) 0 ds"

definition parseInt :: "string \<Rightarrow> number" where
  "parseInt ds = binary64 (of_nat (decimal ds))"

text \<open>The body of the loop: the \<^verbatim>\<open>switch\<close> on the unit letter adds to \<open>totalMs\<close>.\<close>

definition addMatch :: "number \<Rightarrow> string \<times> char \<Rightarrow> number" where
  "addMatch totalMs match =
     (let v = parseInt (fst match); unit = snd match
      in if unit = CHR ''s'' then js_add totalMs (js_mul v (Fin 1000))
         else if unit = CHR ''m'' then js_add totalMs (js_mul (js_mul v (Fin 60)) (Fin 1000))
         else if unit = CHR ''h'' then
           js_add totalMs (js_mul (js_mul (js_mul v (Fin 60)) (Fin 60)) (Fin 1000))
         else if unit = CHR ''d'' then
           js_add totalMs
             (js_mul (js_mul (js_mul (js_mul v (Fin 24)) (Fin 60)) (Fin 60)) (Fin 1000))
         else if unit = CHR ''w'' then
           js_add totalMs
             (js_mul (js_mul (js_mul (js_mul (js_mul v (Fin 7)) (Fin 24)) (Fin 60)) (Fin 60))
                (Fin 1000))
         else totalMs)"

text \<open>\<^verbatim>\<open>totalMs || 0\<close>: zero and \<^verbatim>\<open>NaN\<close> are falsy.\<close>

definition or_zero :: "number \<Rightarrow> number" where
  "or_zero v = (if v = NaN \<or> v = Fin 0 then Fin 0 else v)"

definition parseDuration :: "string \<Rightarrow> number" where
  "parseDuration timeString = or_zero (foldl addMatch (Fin 0) (exec_all timeString))"

text \<open>
  What the claim about \<open>parseDuration\<close> speaks of: a string contains a token when a digit
  is directly followed by a unit letter; a token is a non-empty run of digits with a
  unit letter; the milliseconds of a unit letter.
\<close>

fun has_token :: "string \<Rightarrow> bool" where
  "has_token (a # b # cs) = ((is_digit a \<and> is_unit_letter b) \<or> has_token (b # cs))"
| "has_token _ = False"

definition unit_ms :: "char \<Rightarrow> nat" where
  "unit_ms u =
     (if u = CHR ''s'' then 1000 else if u = CHR ''m'' then 60000
      else if u = CHR ''h'' then 3600000 else if u = CHR ''d'' then 86400000
      else if u = CHR ''w'' then 604800000 else 0)"

definition well_formed_token :: "string \<times> string \<times> char \<Rightarrow> bool" where
  "well_formed_token t =
     (case t of (sep, ds, u) \<Rightarrow>
        list_all (\<lambda>c. \<not> is_digit c) sep \<and> ds \<noteq> [] \<and> list_all is_digit ds \<and> is_unit_letter u)"

definition render_tokens :: "(string \<times> string \<times> char) list \<Rightarrow> string" where
  "render_tokens toks = concat (map (\<lambda>(sep, ds, u). sep @ ds @ [u]) toks)"

definition token_ms :: "string \<times> string \<times> char \<Rightarrow> nat" where
  "token_ms t = (case t of (sep, ds, u) \<Rightarrow> decimal ds * unit_ms u)"

section \<open>GeoUtils\<close>

text \<open>
  The functions of \<^verbatim>\<open>Math\<close> that ECMAScript only asks to approximate the mathematical
  ones are the platform's: a record of functions on numbers. \<^verbatim>\<open>Math.PI\<close> is the number
  3.141592653589793.
\<close>

record MathLib =
  Math_sin :: "number \<Rightarrow> number"
  Math_cos :: "number \<Rightarrow> number"
  Math_asin :: "number \<Rightarrow> number"
  Math_atan2 :: "number \<Rightarrow> number \<Rightarrow> number"
  Math_sqrt :: "number \<Rightarrow> number"

definition Math_PI :: number where
  "Math_PI = Fin (884279719003555 / 281474976710656)"

record Coordinates =
  lat :: number
  lng :: number

definition EARTH_RADIUS_KM :: number where "EARTH_RADIUS_KM = Fin 6371"

definition toRad :: "number \<Rightarrow> number" where
  "toRad degrees = js_div (js_mul degrees Math_PI) (Fin 180)"

text \<open>
  \<^verbatim>\<open>calculateDestination(start, distance, bearing, unit = 'km')\<close>; every unit other than
  \<^verbatim>\<open>'km'\<close> and \<^verbatim>\<open>'m'\<close> is converted as miles.
\<close>

definition calculateDestination ::
  "MathLib \<Rightarrow> Coordinates \<Rightarrow> number \<Rightarrow> number \<Rightarrow> string option \<Rightarrow> Coordinates" where
  "calculateDestination M start distance bearing unit' =
     (let unit = dflt ''km'' unit';
          distanceKm = (if unit = ''km'' then distance
                        else if unit = ''m'' then js_div distance (Fin 1000)
                        else js_mul distance (lit 1.60934));
          lat1 = toRad (lat start);
          lng1 = toRad (lng start);
          bearingRad = toRad bearing;
          angularDistance = js_div distanceKm EARTH_RADIUS_KM;
          lat2 = Math_asin M
                   (js_add (js_mul (Math_sin M lat1) (Math_cos M angularDistance))
                      (js_mul (js_mul (Math_cos M lat1) (Math_sin M angularDistance))
                         (Math_cos M bearingRad)));
          lng2 = js_add lng1
                   (Math_atan2 M
                      (js_mul (js_mul (Math_sin M bearingRad) (Math_sin M angularDistance))
                         (Math_cos M lat1))
                      (js_sub (Math_cos M angularDistance)
                         (js_mul (Math_sin M lat1) (Math_sin M lat2))))
      in \<lparr>lat = js_div (js_mul lat2 (Fin 180)) Math_PI,
          lng = js_sub (js_rem (js_add (js_div (js_mul lng2 (Fin 180)) Math_PI) (Fin 540))
                          (Fin 360))
                  (Fin 180)\<rparr>)"

definition calculateMidpoint :: "MathLib \<Rightarrow> Coordinates \<Rightarrow> Coordinates \<Rightarrow> Coordinates" where
  "calculateMidpoint M coord1 coord2 =
     (let lat1 = toRad (lat coord1);
          lng1 = toRad (lng coord1);
          lat2 = toRad (lat coord2);
          lng2 = toRad (lng coord2);
          Bx = js_mul (Math_cos M lat2) (Math_cos M (js_sub lng2 lng1));
          By = js_mul (Math_cos M lat2) (Math_sin M (js_sub lng2 lng1));
          lat3 = Math_atan2 M
                   (js_add (Math_sin M lat1) (Math_sin M lat2))
                   (Math_sqrt M
                      (js_add (js_mul (js_add (Math_cos M lat1) Bx) (js_add (Math_cos M lat1) Bx))
                         (js_mul By By)));
          lng3 = js_add lng1 (Math_atan2 M By (js_add (Math_cos M lat1) Bx))
      in \<lparr>lat = js_div (js_mul lat3 (Fin 180)) Math_PI,
          lng = js_sub (js_rem (js_add (js_div (js_mul lng3 (Fin 180)) Math_PI) (Fin 540))
                          (Fin 360))
                  (Fin 180)\<rparr>)"

text \<open>
  A library to evaluate examples on: every function returns the number nearest to the
  mathematical result on finite arguments. \<open>atan2\<close> is the angle of the point \<open>(x, y)\<close>.
\<close>

definition atan2 :: "real \<Rightarrow> real \<Rightarrow> real" where
  "atan2 y x =
     (if x > 0 then arctan (y / x)
      else if x < 0 then (if y \<ge> 0 then arctan (y / x) + pi else arctan (y / x) - pi)
      else if y > 0 then pi / 2
      else if y < 0 then - pi / 2
      else 0)"

definition nearest_Math :: MathLib where
  "nearest_Math =
     \<lparr>Math_sin = (\<lambda>a. case a of Fin x \<Rightarrow> binary64 (sin x) | _ \<Rightarrow> NaN),
      Math_cos = (\<lambda>a. case a of Fin x \<Rightarrow> binary64 (cos x) | _ \<Rightarrow> NaN),
      Math_asin = (\<lambda>a. case a of Fin x \<Rightarrow> if \<bar>x\<bar> \<le> 1 then binary64 (arcsin x) else NaN
                         | _ \<Rightarrow> NaN),
      Math_atan2 = (\<lambda>a b. case (a, b) of (Fin y, Fin x) \<Rightarrow> binary64 (atan2 y x)
                           | (Fin y, PosInf) \<Rightarrow> Fin 0
                           | (Fin y, NegInf) \<Rightarrow> (if 0 \<le> y then binary64 pi else binary64 (- pi))
                           | (PosInf, Fin x) \<Rightarrow> binary64 (pi / 2)
                           | (NegInf, Fin x) \<Rightarrow> binary64 (- pi / 2)
                           | (PosInf, PosInf) \<Rightarrow> binary64 (pi / 4)
                           | (PosInf, NegInf) \<Rightarrow> binary64 (3 * pi / 4)
                           | (NegInf, PosInf) \<Rightarrow> binary64 (- pi / 4)
                           | (NegInf, NegInf) \<Rightarrow> binary64 (- 3 * pi / 4)
                           | _ \<Rightarrow> NaN),
      Math_sqrt = (\<lambda>a. case a of Fin x \<Rightarrow> if 0 \<le> x then binary64 (sqrt x) else NaN
                         | PosInf \<Rightarrow> PosInf | _ \<Rightarrow> NaN)\<rparr>"

section \<open>NotificationUtils\<close>

datatype NotificationType =
    QUEUE_UPDATE | POSITION_CHANGED | YOUR_TURN_SOON | YOUR_TURN_NOW | QUEUE_PAUSED
  | QUEUE_RESUMED | QUEUE_CLOSED | APPOINTMENT_REMINDER | CUSTOM_MESSAGE

datatype Priority = Priority_default | Priority_high | Priority_max

datatype QueueStatus = PAUSED | RESUMED | CLOSED

text \<open>
  A value of the \<^verbatim>\<open>data\<close> record of a payload. \<open>ISOString t\<close> is the string
  \<^verbatim>\<open>new Date(t).toISOString()\<close> of the time value \<open>t\<close>.
\<close>

datatype jsval = JString string | JNumber real | JBoolean bool | JUndefined | ISOString real

text \<open>
  The fields of \<^verbatim>\<open>NotificationPayload\<close> that the builders set; \<open>None\<close> is an absent
  optional field. The object \<^verbatim>\<open>data\<close> is a map from property names, and the spread
  \<^verbatim>\<open>...data\<close> at the end of an object literal overrides the properties before it.
\<close>

record NotificationPayload =
  type :: NotificationType
  title :: string
  message :: string
  data :: "string \<rightharpoonup> jsval"
  priority :: "Priority option"
  sound :: "bool option"

definition statusString :: "QueueStatus \<Rightarrow> string" where
  "statusString status =
     (case status of PAUSED \<Rightarrow> ''PAUSED'' | RESUMED \<Rightarrow> ''RESUMED'' | CLOSED \<Rightarrow> ''CLOSED'')"

definition toLowerCase :: "string \<Rightarrow> string" where
  "toLowerCase s =
     map (\<lambda>c. if 65 \<le> (of_char c :: nat) \<and> (of_char c :: nat) \<le> 90
               then char_of (of_char c + 32 :: nat) else c) s"

text \<open>
  The builders read the clock: \<open>now\<close> is the time value of \<^verbatim>\<open>new Date()\<close>. The parameter
  \<^verbatim>\<open>data\<close> defaults to the empty object.
\<close>

definition createYourTurnNowNotification ::
  "real \<Rightarrow> string \<Rightarrow> (string \<rightharpoonup> jsval) option \<Rightarrow> NotificationPayload" where
  "createYourTurnNowNotification now queueName data' =
     \<lparr>type = YOUR_TURN_NOW,
      title = ''It'' @ [char_of (39 :: nat)] @ ''s Your Turn!'',
      message = ''Please proceed to '' @ queueName @ ''.'',
      data = [''queueName'' \<mapsto> JString queueName, ''timestamp'' \<mapsto> ISOString now]
               ++ dflt Map.empty data',
      priority = Some Priority_max,
      sound = Some True\<rparr>"

definition createQueueStatusNotification ::
  "real \<Rightarrow> QueueStatus \<Rightarrow> string \<Rightarrow> string option \<Rightarrow> (string \<rightharpoonup> jsval) option
   \<Rightarrow> NotificationPayload" where
  "createQueueStatusNotification now status queueName reason data' =
     (let ty = (case status of PAUSED \<Rightarrow> QUEUE_PAUSED | RESUMED \<Rightarrow> QUEUE_RESUMED
                | CLOSED \<Rightarrow> QUEUE_CLOSED);
          title0 = [];
          message0 = ''The queue for '' @ queueName @ '' has been ''
                     @ toLowerCase (statusString status);
          tm = (if status = PAUSED then
                  (''Queue Paused'',
                   (case reason of
                      Some r \<Rightarrow> if r \<noteq> [] then ''The queue for '' @ queueName @ '' has been paused: '' @ r
                                else ''The queue for '' @ queueName @ '' has been paused.''
                    | None \<Rightarrow> ''The queue for '' @ queueName @ '' has been paused.''))
                else if status = RESUMED then
                  (''Queue Resumed'', ''The queue for '' @ queueName @ '' has been resumed.'')
                else if status = CLOSED then
                  (''Queue Closed'', ''The queue for '' @ queueName @ '' has been closed.'')
                else (title0, message0))
      in \<lparr>type = ty, title = fst tm, message = snd tm,
          data = [''queueName'' \<mapsto> JString queueName,
                  ''status'' \<mapsto> JString (statusString status),
                  ''reason'' \<mapsto> (case reason of None \<Rightarrow> JUndefined | Some r \<Rightarrow> JString r),
                  ''timestamp'' \<mapsto> ISOString now]
                 ++ dflt Map.empty data',
          priority = Some Priority_high,
          sound = None\<rparr>)"

definition createCustomNotification ::
  "real \<Rightarrow> string \<Rightarrow> string \<Rightarrow> (string \<rightharpoonup> jsval) option \<Rightarrow> NotificationPayload" where
  "createCustomNotification now title' message' data' =
     \<lparr>type = CUSTOM_MESSAGE, title = title', message = message',
      data = [''timestamp'' \<mapsto> ISOString now] ++ dflt Map.empty data',
      priority = Some Priority_default,
      sound = None\<rparr>"

section \<open>Properties\<close>

subsection \<open>Rounding to binary64\<close>

lemma rne_of_int [simp]: "rne (of_int n) = n"
  by (simp add: rne_def)

lemma rne_cases: "rne q = \<lfloor>q\<rfloor> \<or> rne q = \<lfloor>q\<rfloor> + 1"
  by (simp add: rne_def Let_def)

lemma rne_floor_le: "\<lfloor>q\<rfloor> \<le> rne q"
  using rne_cases [of q] by linarith

lemma rne_le_ceiling: "rne q \<le> \<lceil>q\<rceil>"
proof (cases "q = of_int \<lfloor>q\<rfloor>")
  case True
  then have "rne q = \<lfloor>q\<rfloor>" by (metis rne_of_int)
  then show ?thesis by linarith
next
  case False
  then have "\<lceil>q\<rceil> = \<lfloor>q\<rfloor> + 1" by (metis ceiling_altdef)
  then show ?thesis using rne_cases [of q] by linarith
qed

lemma rne_mono: "q \<le> q' \<Longrightarrow> rne q \<le> rne q'"
proof -
  assume le: "q \<le> q'"
  then have fl: "\<lfloor>q\<rfloor> \<le> \<lfloor>q'\<rfloor>" by (rule floor_mono)
  show ?thesis
  proof (cases "\<lfloor>q\<rfloor> = \<lfloor>q'\<rfloor>")
    case False
    then have "\<lfloor>q\<rfloor> + 1 \<le> \<lfloor>q'\<rfloor>" using fl by linarith
    then show ?thesis using rne_cases [of q] rne_floor_le [of q'] by linarith
  next
    case True
    then have "q - of_int \<lfloor>q\<rfloor> \<le> q' - of_int \<lfloor>q'\<rfloor>" using le by simp
    then show ?thesis using True by (auto simp: rne_def Let_def)
  qed
qed

lemma rne_minus: "rne (- q) = - rne q"
proof (cases "q = of_int \<lfloor>q\<rfloor>")
  case True
  then obtain n where "q = of_int n" by metis
  then have "- q = of_int (- n)" by simp
  then show ?thesis using \<open>q = of_int n\<close> by (metis rne_of_int)
next
  case False
  then have c: "\<lfloor>- q\<rfloor> = - \<lfloor>q\<rfloor> - 1"
    by (metis ceiling_altdef ceiling_def add_diff_cancel minus_add_cancel uminus_add_conv_diff minus_minus)
  have lt: "of_int \<lfloor>q\<rfloor> < q" using False by (metis of_int_floor_le less_le)
  have "- q - of_int (- \<lfloor>q\<rfloor> - 1) = 1 - (q - of_int \<lfloor>q\<rfloor>)" by simp
  then show ?thesis using lt c
    by (auto simp: rne_def Let_def)
qed

lemma two_powi_pos [simp]: "0 < (2::real) powi k"
  by (simp add: power_int_def)

lemma two_powi_add: "(2::real) powi (a + b) = 2 powi a * 2 powi b"
  by (simp add: power_int_add)

lemma two_powi_int: "0 \<le> k \<Longrightarrow> (2::real) powi k = of_int (2 ^ nat k)"
  by (simp add: power_int_def)

lemma two_powi_less: "(2::real) powi a < 2 powi b \<longleftrightarrow> a < b"
proof
  assume "(2::real) powi a < 2 powi b"
  then show "a < b"
    using power_int_increasing [of b a "2::real"] by (cases "a < b") simp_all
next
  assume "a < b"
  then show "(2::real) powi a < 2 powi b"
    by (intro power_int_strict_increasing) simp_all
qed

lemma two_powi_le: "(2::real) powi a \<le> 2 powi b \<longleftrightarrow> a \<le> b"
  using two_powi_less [of b a] by (simp add: not_less [symmetric])

lemma rne_0 [simp]: "rne 0 = 0"
  using rne_of_int [of 0] by simp

lemma binade:
  assumes "0 < x"
  shows "2 powi \<lfloor>log 2 x\<rfloor> \<le> x \<and> x < 2 powi (\<lfloor>log 2 x\<rfloor> + 1)"
proof -
  have "2 powr real_of_int \<lfloor>log 2 x\<rfloor> \<le> x \<and> x < 2 powr (real_of_int \<lfloor>log 2 x\<rfloor> + 1)"
    using floor_log_eq_powr_iff [of x 2 "\<lfloor>log 2 x\<rfloor>"] assms by simp
  moreover have "real_of_int \<lfloor>log 2 x\<rfloor> + 1 = real_of_int (\<lfloor>log 2 x\<rfloor> + 1)" by simp
  ultimately show ?thesis
    by (metis powr_real_of_int' zero_le_numeral zero_neq_numeral)
qed

lemma floor_log2_eqI:
  assumes "2 powi k \<le> x" and "x < 2 powi (k + 1)"
  shows "\<lfloor>log 2 x\<rfloor> = k"
proof -
  have x: "0 < x" using assms(1) two_powi_pos [of k] by linarith
  have "2 powr real_of_int k \<le> x \<and> x < 2 powr (real_of_int k + 1)"
    using assms by (metis of_int_1 of_int_add powr_real_of_int' zero_le_numeral zero_neq_numeral)
  then show ?thesis using floor_log_eq_powr_iff [of x 2 k] x by simp
qed

lemma expo_ge [simp]: "- 1074 \<le> expo x"
  by (simp add: expo_def)

lemma expo_minus [simp]: "expo (- x) = expo x"
  by (simp add: expo_def)

lemma round_real_minus: "round_real (- x) = - round_real x"
  by (simp add: round_real_def rne_minus)

lemma round_real_0 [simp]: "round_real 0 = 0"
  by (simp add: round_real_def)

lemma round_real_nonneg: "0 \<le> x \<Longrightarrow> 0 \<le> round_real x"
proof -
  assume "0 \<le> x"
  then have "0 \<le> x / 2 powi expo x" by simp
  then have "rne 0 \<le> rne (x / 2 powi expo x)" by (rule rne_mono)
  then have "0 \<le> real_of_int (rne (x / 2 powi expo x))" by simp
  then show ?thesis unfolding round_real_def by (intro mult_nonneg_nonneg) simp_all
qed

lemma round_real_nonpos: "x \<le> 0 \<Longrightarrow> round_real x \<le> 0"
  using round_real_nonneg [of "- x"] by (simp add: round_real_minus)

text \<open>A power of two that lies on the grid of \<open>x\<close> bounds the rounding of \<open>x\<close>.\<close>

lemma round_real_le_pow:
  assumes "x \<le> 2 powi j" and "expo x \<le> j"
  shows "round_real x \<le> 2 powi j"
proof -
  let ?e = "expo x"
  have "(2::real) powi j = 2 powi (j - ?e) * 2 powi ?e"
    using two_powi_add [of "j - ?e" ?e] by simp
  moreover have "(2::real) powi (j - ?e) = real_of_int (2 ^ nat (j - ?e))"
    using assms(2) by (simp add: two_powi_int)
  ultimately have eq: "(2::real) powi j = real_of_int (2 ^ nat (j - ?e)) * 2 powi ?e" by simp
  then have "x / 2 powi ?e \<le> real_of_int (2 ^ nat (j - ?e))"
    using assms(1) by (simp add: field_simps)
  then have "rne (x / 2 powi ?e) \<le> 2 ^ nat (j - ?e)"
    using rne_mono rne_of_int by metis
  then have "real_of_int (rne (x / 2 powi ?e)) \<le> real_of_int (2 ^ nat (j - ?e))"
    by linarith
  then have "real_of_int (rne (x / 2 powi ?e)) * 2 powi ?e
             \<le> real_of_int (2 ^ nat (j - ?e)) * 2 powi ?e"
    by (intro mult_right_mono) simp_all
  then show ?thesis using eq by (simp add: round_real_def)
qed

lemma round_real_ge_pow:
  assumes "2 powi j \<le> x" and "expo x \<le> j"
  shows "2 powi j \<le> round_real x"
proof -
  let ?e = "expo x"
  have "(2::real) powi j = 2 powi (j - ?e) * 2 powi ?e"
    using two_powi_add [of "j - ?e" ?e] by simp
  moreover have "(2::real) powi (j - ?e) = real_of_int (2 ^ nat (j - ?e))"
    using assms(2) by (simp add: two_powi_int)
  ultimately have eq: "(2::real) powi j = real_of_int (2 ^ nat (j - ?e)) * 2 powi ?e" by simp
  then have "real_of_int (2 ^ nat (j - ?e)) \<le> x / 2 powi ?e"
    using assms(1) by (simp add: field_simps)
  then have "2 ^ nat (j - ?e) \<le> rne (x / 2 powi ?e)"
    using rne_mono rne_of_int by metis
  then have "real_of_int (2 ^ nat (j - ?e)) \<le> real_of_int (rne (x / 2 powi ?e))"
    by linarith
  then have "real_of_int (2 ^ nat (j - ?e)) * 2 powi ?e
             \<le> real_of_int (rne (x / 2 powi ?e)) * 2 powi ?e"
    by (intro mult_right_mono) simp_all
  then show ?thesis using eq by (simp add: round_real_def)
qed

lemma expo_mono: "0 < x \<Longrightarrow> x \<le> y \<Longrightarrow> expo x \<le> expo y"
proof -
  assume "0 < x" "x \<le> y"
  then have "log 2 x \<le> log 2 y" by simp
  then have "\<lfloor>log 2 x\<rfloor> \<le> \<lfloor>log 2 y\<rfloor>" by (rule floor_mono)
  then show ?thesis using \<open>0 < x\<close> \<open>x \<le> y\<close> by (simp add: expo_def)
qed

lemma round_real_mono_pos:
  assumes "0 < x" and "x \<le> y"
  shows "round_real x \<le> round_real y"
proof (cases "expo x = expo y")
  case True
  have "x / 2 powi expo y \<le> y / 2 powi expo y"
    using assms(2) by (simp add: divide_right_mono)
  then have "rne (x / 2 powi expo y) \<le> rne (y / 2 powi expo y)" by (rule rne_mono)
  then have "real_of_int (rne (x / 2 powi expo y)) * 2 powi expo y
             \<le> real_of_int (rne (y / 2 powi expo y)) * 2 powi expo y"
    by (intro mult_right_mono) simp_all
  then show ?thesis using True by (simp add: round_real_def)
next
  case False
  have y: "0 < y" using assms by linarith
  let ?kx = "\<lfloor>log 2 x\<rfloor>" and ?ky = "\<lfloor>log 2 y\<rfloor>"
  have lt: "expo x < expo y" using False expo_mono [OF assms] by linarith
  then have ey: "expo y = ?ky - 52"
    using expo_ge [of x] y by (simp add: expo_def max_def split: if_splits)
  have "?kx - 52 \<le> expo x" using assms(1) by (simp add: expo_def)
  then have k: "?kx + 1 \<le> ?ky" using lt ey by linarith
  have "x < 2 powi (?kx + 1)" using binade [OF assms(1)] by simp
  also have "\<dots> \<le> 2 powi ?ky" using k by (simp add: two_powi_le)
  finally have xb: "x \<le> 2 powi ?ky" by simp
  have by': "2 powi ?ky \<le> y" using binade [OF y] by simp
  have "round_real x \<le> 2 powi ?ky"
    using xb lt ey by (intro round_real_le_pow) simp_all
  also have "\<dots> \<le> round_real y"
    using by' ey by (intro round_real_ge_pow) simp_all
  finally show ?thesis .
qed

lemma round_real_mono: "x \<le> y \<Longrightarrow> round_real x \<le> round_real y"
proof -
  assume le: "x \<le> y"
  consider "0 < x" | "x \<le> 0" "0 \<le> y" | "y < 0" by linarith
  then show ?thesis
  proof cases
    case 1
    then show ?thesis using le by (rule round_real_mono_pos)
  next
    case 2
    then show ?thesis using round_real_nonpos [of x] round_real_nonneg [of y] by linarith
  next
    case 3
    then have "0 < - y" "- y \<le> - x" using le by simp_all
    then have "round_real (- y) \<le> round_real (- x)" by (rule round_real_mono_pos)
    then show ?thesis by (simp add: round_real_minus)
  qed
qed

lemma expo_le_grid:
  assumes "x = of_int m * 2 powi e" and "\<bar>m\<bar> < 2 ^ 53" and "- 1074 \<le> e" and "m \<noteq> 0"
  shows "expo x \<le> e"
proof -
  have ax: "\<bar>x\<bar> = of_int \<bar>m\<bar> * 2 powi e" using assms(1) by (simp add: abs_mult)
  have pos: "0 < \<bar>x\<bar>" using assms(1,4) by simp
  have "real_of_int \<bar>m\<bar> < 2 ^ 53" using assms(2) by simp
  then have "real_of_int \<bar>m\<bar> * 2 powi e < 2 ^ 53 * 2 powi e"
    by (intro mult_strict_right_mono) simp_all
  then have "\<bar>x\<bar> < 2 ^ 53 * 2 powi e" using ax by simp
  also have "\<dots> = 2 powi (53 + e)" by (simp add: two_powi_add)
  finally have "2 powi \<lfloor>log 2 \<bar>x\<bar>\<rfloor> < (2::real) powi (53 + e)"
    using binade [OF pos] by linarith
  then have "\<lfloor>log 2 \<bar>x\<bar>\<rfloor> < 53 + e" by (simp add: two_powi_less)
  then show ?thesis using assms(3) by (simp add: expo_def)
qed

lemma round_real_grid:
  assumes "x = of_int m * 2 powi e" and "\<bar>m\<bar> < 2 ^ 53" and "- 1074 \<le> e"
  shows "round_real x = x"
proof (cases "m = 0")
  case True
  then show ?thesis using assms(1) by simp
next
  case False
  let ?e = "expo x"
  have le: "?e \<le> e" using expo_le_grid [OF assms False] .
  have "(2::real) powi e = 2 powi (e - ?e) * 2 powi ?e"
    using two_powi_add [of "e - ?e" ?e] by simp
  moreover have "(2::real) powi (e - ?e) = real_of_int (2 ^ nat (e - ?e))"
    using le by (simp add: two_powi_int)
  ultimately have "x = real_of_int (m * 2 ^ nat (e - ?e)) * 2 powi ?e"
    using assms(1) by simp
  then have q: "x / 2 powi ?e = real_of_int (m * 2 ^ nat (e - ?e))"
    by (simp add: field_simps)
  have "rne (x / 2 powi ?e) = m * 2 ^ nat (e - ?e)"
    unfolding q by (rule rne_of_int)
  then have "round_real x = real_of_int (m * 2 ^ nat (e - ?e)) * 2 powi ?e"
    by (simp add: round_real_def)
  then show ?thesis using q by (simp add: field_simps)
qed

lemma quotient_bound: "\<bar>x / 2 powi expo x\<bar> < 2 ^ 53"
proof (cases "x = 0")
  case True
  then show ?thesis by simp
next
  case False
  then have pos: "0 < \<bar>x\<bar>" by simp
  let ?k = "\<lfloor>log 2 \<bar>x\<bar>\<rfloor>"
  have "?k - 52 \<le> expo x" by (simp add: expo_def)
  then have "?k + 1 \<le> expo x + 53" by linarith
  then have "(2::real) powi (?k + 1) \<le> 2 powi (expo x + 53)" by (simp add: two_powi_le)
  then have "\<bar>x\<bar> < 2 powi (expo x + 53)" using binade [OF pos] by linarith
  also have "\<dots> = 2 powi expo x * 2 ^ 53" by (simp add: two_powi_add)
  finally have "\<bar>x\<bar> / 2 powi expo x < 2 ^ 53" by (simp add: field_simps)
  then show ?thesis by (simp add: abs_divide)
qed

lemma mantissa_bound: "\<bar>rne (x / 2 powi expo x)\<bar> \<le> 2 ^ 53"
proof -
  let ?q = "x / 2 powi expo x"
  have b: "\<bar>?q\<bar> < 2 ^ 53" by (rule quotient_bound)
  have "?q \<le> real_of_int (2 ^ 53)"
  proof -
    have "?q \<le> 2 ^ 53" using b by linarith
    then show ?thesis by simp
  qed
  then have "rne ?q \<le> rne (real_of_int (2 ^ 53))" by (rule rne_mono)
  then have 1: "rne ?q \<le> 2 ^ 53" by (simp only: rne_of_int)
  have "real_of_int (- (2 ^ 53)) \<le> ?q"
  proof -
    have "- (2 ^ 53) \<le> ?q" using b by linarith
    then show ?thesis by simp
  qed
  then have "rne (real_of_int (- (2 ^ 53))) \<le> rne ?q" by (rule rne_mono)
  then have 2: "- (2 ^ 53) \<le> rne ?q" by (simp only: rne_of_int)
  show ?thesis using 1 2 by linarith
qed

lemma two_powi_Suc: "(2::real) powi (e + 1) = 2 * 2 powi e"
  using two_powi_add [of e 1] by simp

lemma round_real_form:
  "\<exists>m e. round_real x = of_int m * 2 powi e \<and> \<bar>m\<bar> < 2 ^ 53 \<and> - 1074 \<le> e"
proof -
  let ?M = "rne (x / 2 powi expo x)"
  have r: "round_real x = of_int ?M * 2 powi expo x" by (simp only: round_real_def)
  have e1: "- 1074 \<le> expo x + 1" using expo_ge [of x] by linarith
  consider "\<bar>?M\<bar> < 2 ^ 53" | "?M = 2 ^ 53" | "?M = - (2 ^ 53)"
    using mantissa_bound [of x] by linarith
  then show ?thesis
  proof cases
    case 1
    show ?thesis using r 1 expo_ge [of x] by blast
  next
    case 2
    have "round_real x = of_int (2 ^ 53) * 2 powi expo x" using r by (simp only: 2)
    also have "\<dots> = of_int (2 ^ 52) * (2 * 2 powi expo x)" by simp
    also have "\<dots> = of_int (2 ^ 52) * 2 powi (expo x + 1)" by (simp only: two_powi_Suc)
    finally have "round_real x = of_int (2 ^ 52) * 2 powi (expo x + 1)" .
    moreover have "\<bar>(2::int) ^ 52\<bar> < 2 ^ 53" by simp
    ultimately show ?thesis using e1 by blast
  next
    case 3
    have "round_real x = of_int (- (2 ^ 53)) * 2 powi expo x" using r by (simp only: 3)
    also have "\<dots> = of_int (- (2 ^ 52)) * (2 * 2 powi expo x)" by simp
    also have "\<dots> = of_int (- (2 ^ 52)) * 2 powi (expo x + 1)" by (simp only: two_powi_Suc)
    finally have "round_real x = of_int (- (2 ^ 52)) * 2 powi (expo x + 1)" .
    moreover have "\<bar>- ((2::int) ^ 52)\<bar> < 2 ^ 53" by simp
    ultimately show ?thesis using e1 by blast
  qed
qed

lemma round_real_idem [simp]: "round_real (round_real x) = round_real x"
proof -
  from round_real_form [of x] obtain m e where
    "round_real x = of_int m * 2 powi e" "\<bar>m\<bar> < 2 ^ 53" "- 1074 \<le> e" by blast
  then show ?thesis by (rule round_real_grid)
qed

lemma round_real_int: "\<exists>k. round_real (of_int n) = of_int k"
proof (cases "expo (of_int n) \<le> 0")
  case True
  let ?e = "expo (real_of_int n)"
  have "1 / (2::real) powi ?e = 2 powi (- ?e)" by (simp add: power_int_minus_divide)
  also have "\<dots> = real_of_int (2 ^ nat (- ?e))" using True by (simp add: two_powi_int)
  finally have i: "1 / (2::real) powi ?e = real_of_int (2 ^ nat (- ?e))" .
  have "real_of_int n / 2 powi ?e = real_of_int n * (1 / 2 powi ?e)" by simp
  also have "\<dots> = real_of_int n * real_of_int (2 ^ nat (- ?e))" by (simp only: i)
  finally have q: "real_of_int n / 2 powi ?e = real_of_int (n * 2 ^ nat (- ?e))" by simp
  have "rne (real_of_int n / 2 powi ?e) = n * 2 ^ nat (- ?e)"
    unfolding q by (rule rne_of_int)
  then have "round_real (of_int n) = real_of_int (n * 2 ^ nat (- ?e)) * 2 powi ?e"
    by (simp add: round_real_def)
  then have "round_real (of_int n) = of_int n" using q by (simp add: field_simps)
  then show ?thesis by blast
next
  case False
  let ?e = "expo (real_of_int n)"
  have "(2::real) powi ?e = real_of_int (2 ^ nat ?e)" using False by (simp add: two_powi_int)
  then have "round_real (of_int n)
             = real_of_int (rne (real_of_int n / 2 powi ?e) * 2 ^ nat ?e)"
    by (simp add: round_real_def)
  then show ?thesis by blast
qed

lemma round_real_exact_int:
  assumes "\<bar>n\<bar> \<le> 2 ^ 53"
  shows "round_real (of_int n) = of_int n"
proof -
  consider "\<bar>n\<bar> < 2 ^ 53" | "n = 2 ^ 53" | "n = - (2 ^ 53)" using assms by linarith
  then show ?thesis
  proof cases
    case 1
    have "real_of_int n = of_int n * 2 powi 0" by simp
    then show ?thesis using 1 by (rule round_real_grid) simp
  next
    case 2
    have "real_of_int n = of_int (2 ^ 52) * 2 powi 1" unfolding 2 by simp
    then show ?thesis by (rule round_real_grid) simp_all
  next
    case 3
    have "real_of_int n = of_int (- (2 ^ 52)) * 2 powi 1" unfolding 3 by simp
    then show ?thesis by (rule round_real_grid) simp_all
  qed
qed

lemma is_double_dyadic:
  assumes "\<bar>m\<bar> < 2 ^ 53" and "- 1074 \<le> e" and "e \<le> 971"
  shows "is_double (of_int m * 2 powi e)"
proof -
  have "real_of_int \<bar>m\<bar> < 2 ^ 53" using assms(1) by simp
  then have "real_of_int \<bar>m\<bar> * 2 powi e < 2 ^ 53 * 2 powi e"
    by (intro mult_strict_right_mono) simp_all
  also have "\<dots> = 2 powi (53 + e)" by (simp add: two_powi_add)
  also have "\<dots> \<le> 2 powi 1024"
    using assms(3) by (intro iffD2 [OF two_powi_le]) simp
  finally have "\<bar>of_int m * 2 powi e\<bar> < (2::real) powi 1024" by (simp only: abs_mult abs_of_pos [OF two_powi_pos] of_int_abs)
  then show ?thesis
    using round_real_grid [OF refl assms(1,2)] by (simp only: is_double_def simp_thms)
qed

lemma is_double_int:
  assumes "\<bar>n\<bar> < 2 ^ 53"
  shows "is_double (of_int n)"
  using is_double_dyadic [OF assms, of 0] by simp

lemma limit_pos: "0 < (2::real) powi 1024"
  by (rule two_powi_pos)

lemma binary64_Fin:
  assumes "\<bar>round_real x\<bar> < 2 powi 1024"
  shows "binary64 x = Fin (round_real x)"
proof -
  have a: "\<not> 2 powi 1024 \<le> round_real x" "\<not> round_real x \<le> - (2 powi 1024)"
    using assms by linarith+
  show ?thesis unfolding binary64_def Let_def by (simp only: a if_False)
qed

lemma binary64_double: "is_double d \<Longrightarrow> binary64 d = Fin d"
  using binary64_Fin [of d] by (simp only: is_double_def)

lemma binary64_cases:
  "binary64 x = PosInf \<or> binary64 x = NegInf \<or> (binary64 x = Fin (round_real x) \<and> is_double (round_real x))"
proof -
  consider "2 powi 1024 \<le> round_real x" | "round_real x \<le> - (2 powi 1024)"
    | "\<bar>round_real x\<bar> < 2 powi 1024" by linarith
  then show ?thesis
  proof cases
    case 1
    then show ?thesis by (simp only: binary64_def Let_def if_True simp_thms)
  next
    case 2
    have "\<not> 2 powi 1024 \<le> round_real x" using 2 limit_pos by linarith
    then show ?thesis using 2 by (simp only: binary64_def Let_def if_True if_False simp_thms)
  next
    case 3
    then have "is_double (round_real x)" by (simp only: is_double_def round_real_idem simp_thms)
    then show ?thesis using binary64_Fin [OF 3] by blast
  qed
qed

lemma binary64_fin_double: "binary64 x = Fin w \<Longrightarrow> is_double w"
  using binary64_cases [of x] by auto

lemma binary64_fin_eq: "binary64 x = Fin w \<Longrightarrow> w = round_real x"
  using binary64_cases [of x] by auto

lemma js_le_Fin [simp]: "js_le (Fin x) (Fin y) = (x \<le> y)"
  by (auto simp: js_le_def)

lemma js_le_PosInf [simp]: "js_le (Fin x) PosInf" "js_le PosInf PosInf" "js_le NegInf PosInf"
  by (simp_all add: js_le_def)

lemma js_le_NegInf [simp]: "js_le NegInf (Fin x)" "js_le NegInf NegInf"
  by (simp_all add: js_le_def)

lemma binary64_mono:
  assumes "x \<le> y"
  shows "js_le (binary64 x) (binary64 y)"
proof -
  have m: "round_real x \<le> round_real y" using assms by (rule round_real_mono)
  consider (hi) "2 powi 1024 \<le> round_real y" | (lo) "round_real x \<le> - (2 powi 1024)"
    | (mid) "round_real y < 2 powi 1024" "- (2 powi 1024) < round_real x" by linarith
  then show ?thesis
  proof cases
    case hi
    then have "binary64 y = PosInf" by (simp only: binary64_def Let_def if_True)
    then show ?thesis using binary64_cases [of x] by auto
  next
    case lo
    have "\<not> 2 powi 1024 \<le> round_real x" using lo limit_pos by linarith
    then have "binary64 x = NegInf" using lo by (simp only: binary64_def Let_def if_True if_False)
    then show ?thesis using binary64_cases [of y] by auto
  next
    case mid
    have "\<bar>round_real x\<bar> < 2 powi 1024" "\<bar>round_real y\<bar> < 2 powi 1024"
      using mid m by linarith+
    then show ?thesis using m by (simp only: binary64_Fin js_le_Fin)
  qed
qed

lemma is_doubleD:
  assumes "is_double d"
  shows "round_real d = d" and "- (2 powi 1024) < d" and "d < 2 powi 1024"
proof -
  have a: "round_real d = d" "\<bar>d\<bar> < 2 powi 1024"
    using assms unfolding is_double_def by blast+
  show "round_real d = d" by (rule a(1))
  show "- (2 powi 1024) < d" "d < 2 powi 1024" using a(2) by linarith+
qed

lemma binary64_bounded:
  assumes "is_double c" and "\<bar>x\<bar> \<le> c"
  shows "\<exists>w. binary64 x = Fin w \<and> \<bar>w\<bar> \<le> c \<and> is_double w"
proof -
  have c: "round_real c = c" "c < 2 powi 1024" using is_doubleD [OF assms(1)] by blast+
  have "round_real x \<le> round_real c" using assms(2) by (intro round_real_mono) linarith
  moreover have "round_real (- c) \<le> round_real x" using assms(2) by (intro round_real_mono) linarith
  ultimately have b: "\<bar>round_real x\<bar> \<le> c" using c(1) by (simp add: round_real_minus abs_le_iff)
  then have "\<bar>round_real x\<bar> < 2 powi 1024" using c(2) by linarith
  then have "binary64 x = Fin (round_real x)" by (rule binary64_Fin)
  then show ?thesis using b binary64_fin_double by blast
qed

lemma binary64_between:
  assumes "is_double lo" and "is_double hi" and "lo \<le> x" and "x \<le> hi"
  shows "\<exists>w. binary64 x = Fin w \<and> lo \<le> w \<and> w \<le> hi \<and> is_double w"
proof -
  have l: "round_real lo = lo" "- (2 powi 1024) < lo" using is_doubleD [OF assms(1)] by blast+
  have h: "round_real hi = hi" "hi < 2 powi 1024" using is_doubleD [OF assms(2)] by blast+
  have 1: "lo \<le> round_real x" using round_real_mono [OF assms(3)] l(1) by simp
  have 2: "round_real x \<le> hi" using round_real_mono [OF assms(4)] h(1) by simp
  have "\<bar>round_real x\<bar> < 2 powi 1024" using 1 2 l(2) h(2) by linarith
  then have "binary64 x = Fin (round_real x)" by (rule binary64_Fin)
  then show ?thesis using 1 2 binary64_fin_double by blast
qed

lemma binary64_exact_int: "\<bar>n\<bar> < 2 ^ 53 \<Longrightarrow> binary64 (of_int n) = Fin (of_int n)"
  by (intro binary64_double is_double_int)

lemma binary64_whole:
  "binary64 (of_int n) = PosInf \<or> binary64 (of_int n) = NegInf
   \<or> (\<exists>k. binary64 (of_int n) = Fin (of_int k))"
  using binary64_cases [of "of_int n"] round_real_int [of n] by metis

lemma binary64_nonneg:
  assumes "0 \<le> x"
  shows "binary64 x = PosInf \<or> (\<exists>w. binary64 x = Fin w \<and> 0 \<le> w \<and> is_double w)"
proof -
  have "0 \<le> round_real x" using assms by (rule round_real_nonneg)
  moreover have "\<not> round_real x \<le> - (2 powi 1024)" using calculation limit_pos by linarith
  ultimately show ?thesis using binary64_cases [of x]
    by (auto simp only: binary64_def Let_def split: if_splits)
qed

subsection \<open>Evaluating the rounding\<close>

lemma round_real_eval:
  assumes "2 powi k \<le> \<bar>x\<bar>" and "\<bar>x\<bar> < 2 powi (k + 1)"
    and "e = max (k - 52) (- 1074)" and "rne (x / 2 powi e) = m"
  shows "round_real x = of_int m * 2 powi e"
proof -
  have "\<lfloor>log 2 \<bar>x\<bar>\<rfloor> = k" using assms(1,2) by (rule floor_log2_eqI)
  then have "expo x = e" using assms(3) by (simp add: expo_def)
  then show ?thesis using assms(4) by (simp add: round_real_def)
qed

lemma binary64_eval:
  assumes "2 powi k \<le> \<bar>x\<bar>" and "\<bar>x\<bar> < 2 powi (k + 1)"
    and "e = max (k - 52) (- 1074)" and "rne (x / 2 powi e) = m"
    and "y = of_int m * 2 powi e" and "\<bar>y\<bar> < 2 powi 1024"
  shows "binary64 x = Fin y"
proof -
  have "round_real x = y" using round_real_eval [OF assms(1-4)] assms(5) by simp
  then show ?thesis using binary64_Fin [of x] assms(6) by simp
qed

lemma is_double_div:
  assumes "\<bar>m\<bar> < 2 ^ 53" and "k \<le> 1074"
  shows "is_double (of_int m / 2 ^ k)"
proof -
  have "is_double (of_int m * 2 powi (- int k))"
    using assms by (intro is_double_dyadic) simp_all
  moreover have "(2::real) powi (- int k) = 1 / 2 ^ k"
    by (simp add: power_int_minus field_simps)
  ultimately show ?thesis by simp
qed

lemma binary64_div: "\<bar>m\<bar> < 2 ^ 53 \<Longrightarrow> k \<le> 1074 \<Longrightarrow> binary64 (of_int m / 2 ^ k) = Fin (of_int m / 2 ^ k)"
  by (rule binary64_double) (rule is_double_div)

lemma is_double_0 [simp]: "is_double 0"
  using is_double_int [of 0] by simp

lemma is_double_1 [simp]: "is_double 1"
  using is_double_int [of 1] by simp

lemma is_double_2 [simp]: "is_double 2"
  using is_double_int [of 2] by simp

lemma is_double_minus: "is_double d \<Longrightarrow> is_double (- d)"
  by (simp add: is_double_def round_real_minus)

lemma binary64_0 [simp]: "binary64 0 = Fin 0"
  by (rule binary64_double) simp

lemma binary64_1 [simp]: "binary64 1 = Fin 1"
  by (rule binary64_double) simp

lemma Math_round_of_int [simp]: "Math_round (of_int n) = n"
  unfolding Math_round_def by linarith

lemma Math_round_nonneg: "0 \<le> x \<Longrightarrow> 0 \<le> Math_round x"
  unfolding Math_round_def by linarith

subsection \<open>Wait time\<close>

lemma js_mul_whole:
  assumes "0 \<le> p" and "0 \<le> a"
  shows "js_mul (Fin (of_int p)) (Fin (of_int a)) = PosInf
         \<or> (\<exists>k\<ge>0. js_mul (Fin (of_int p)) (Fin (of_int a)) = Fin (of_int k))"
proof -
  have e: "js_mul (Fin (of_int p)) (Fin (of_int a)) = binary64 (of_int (p * a))" by simp
  have nn: "(0::real) \<le> of_int (p * a)" using assms by simp
  from binary64_nonneg [OF nn] binary64_whole [of "p * a"] show ?thesis
    unfolding e by (elim disjE exE conjE) auto
qed

lemma js_max_0_keep:
  assumes "x = NaN \<or> x = PosInf \<or> (\<exists>y\<ge>0. x = Fin y)"
  shows "js_max (Fin 0) x = x"
  using assms by (auto simp add: js_max_def)

lemma js_round_keep:
  assumes "x = NaN \<or> x = PosInf \<or> (\<exists>y\<ge>0. x = Fin y)"
  shows "js_round x = NaN \<or> js_round x = PosInf \<or> (\<exists>y\<ge>0. js_round x = Fin y)"
  using assms by (auto simp add: Math_round_nonneg)

lemma js_mul_nonneg:
  assumes "x = PosInf \<or> (\<exists>y\<ge>0. x = Fin y)" and "f = PosInf \<or> (\<exists>w\<ge>0. f = Fin w)"
  shows "js_mul x f = NaN \<or> js_mul x f = PosInf \<or> (\<exists>y\<ge>0. js_mul x f = Fin y)"
proof -
  have fin: "binary64 (y * w) = NaN \<or> binary64 (y * w) = PosInf \<or> (\<exists>z\<ge>0. binary64 (y * w) = Fin z)"
    if "0 \<le> y" "0 \<le> w" for y w :: real
    using binary64_nonneg [of "y * w"] that by auto
  show ?thesis using assms fin by (elim disjE exE conjE) auto
qed

lemma wait_no_variance:
  "calculateWaitTime rnd x a (Some (Fin 0)) = js_max (Fin 0) (js_round (js_mul x a))"
  by (simp add: calculateWaitTime_def dflt_def js_gt_def)

lemma wait_variance:
  assumes "0 < v"
  shows "calculateWaitTime rnd x a (Some (Fin v))
         = js_max (Fin 0) (js_round (js_mul (js_mul x a)
             (js_add (Fin 1) (js_mul (js_sub (js_mul rnd (Fin 2)) (Fin 1)) (Fin v)))))"
  using assms by (simp add: calculateWaitTime_def dflt_def js_gt_def Let_def)

lemma wait_floored: "\<not> js_lt (calculateWaitTime rnd x a v) (Fin 0)"
proof -
  have "\<not> js_lt (js_max (Fin 0) y) (Fin 0)" for y
    by (cases y) (simp_all add: js_max_def)
  then show ?thesis by (simp add: calculateWaitTime_def Let_def)
qed

lemma wait_rounded:
  assumes "calculateWaitTime rnd x a v = Fin w"
  shows "\<exists>k\<ge>0. w = of_int k"
proof -
  have "\<exists>k\<ge>0. w = of_int k" if "js_max (Fin 0) (js_round y) = Fin w" for y
  proof (cases y)
    case (Fin z)
    then have "w = of_int (max 0 (Math_round z))"
      using that by (simp add: js_max_def split: if_splits)
    then show ?thesis by (intro exI [of _ "max 0 (Math_round z)"]) simp
  qed (use that in \<open>simp_all add: js_max_def split: if_splits\<close>)
  then show ?thesis using assms by (simp add: calculateWaitTime_def Let_def)
qed

lemma varianceFactor_bounds:
  assumes v: "is_double v" "0 < v" and r: "0 \<le> r" "r < 1"
  defines "f \<equiv> js_add (Fin 1) (js_mul (js_sub (js_mul (Fin r) (Fin 2)) (Fin 1)) (Fin v))"
  shows "js_le (js_sub (Fin 1) (Fin v)) f" and "js_le f (js_add (Fin 1) (Fin v))"
proof -
  have "\<exists>t. binary64 (r * 2) = Fin t \<and> 0 \<le> t \<and> t \<le> 2 \<and> is_double t"
    using r by (intro binary64_between) simp_all
  then obtain t where t: "js_mul (Fin r) (Fin 2) = Fin t" "0 \<le> t" "t \<le> 2" by auto
  have "\<exists>u. binary64 (t + - 1) = Fin u \<and> - 1 \<le> u \<and> u \<le> 1 \<and> is_double u"
    using t by (intro binary64_between) (simp_all add: is_double_minus)
  then obtain u where u: "js_sub (Fin t) (Fin 1) = Fin u" "- 1 \<le> u" "u \<le> 1"
    by (auto simp add: js_sub_def)
  have "\<bar>u * v\<bar> \<le> v"
  proof -
    have "\<bar>u * v\<bar> = \<bar>u\<bar> * v" using v by (simp add: abs_mult)
    also have "\<dots> \<le> 1 * v" using u v by (intro mult_right_mono) auto
    finally show ?thesis by simp
  qed
  then have "\<exists>w. binary64 (u * v) = Fin w \<and> \<bar>w\<bar> \<le> v \<and> is_double w"
    using v by (intro binary64_bounded) simp_all
  then obtain w where w: "js_mul (Fin u) (Fin v) = Fin w" "\<bar>w\<bar> \<le> v" by auto
  have "f = js_add (Fin 1) (Fin w)" by (simp only: f_def t u w)
  then have f: "f = binary64 (1 + w)" by simp
  have "js_le (binary64 (1 + - v)) (binary64 (1 + w))"
    using w by (intro binary64_mono) linarith
  then show "js_le (js_sub (Fin 1) (Fin v)) f" by (simp add: f js_sub_def)
  have "js_le (binary64 (1 + w)) (binary64 (1 + v))"
    using w by (intro binary64_mono) linarith
  then show "js_le f (js_add (Fin 1) (Fin v))" by (simp add: f)
qed

lemma varianceFactor_nonneg:
  assumes v: "is_double v" "0 < v" "v \<le> 1" and r: "0 \<le> r" "r < 1"
  defines "f \<equiv> js_add (Fin 1) (js_mul (js_sub (js_mul (Fin r) (Fin 2)) (Fin 1)) (Fin v))"
  shows "f = PosInf \<or> (\<exists>w\<ge>0. f = Fin w)"
proof -
  have le: "js_le (js_sub (Fin 1) (Fin v)) f"
    unfolding f_def using v(1,2) r by (rule varianceFactor_bounds)
  have "\<exists>u. binary64 (1 + - v) = Fin u \<and> 0 \<le> u \<and> u \<le> 1 \<and> is_double u"
    using v by (intro binary64_between) simp_all
  then obtain u where u: "js_sub (Fin 1) (Fin v) = Fin u" "0 \<le> u"
    by (auto simp add: js_sub_def)
  show ?thesis using le unfolding u by (cases f) (use u in \<open>auto simp add: js_le_def\<close>)
qed

lemma wait_example_184:
  "calculateWaitTime (Fin (9 / 16)) (Fin 3) (Fin 60) None = Fin 184"
proof -
  have lit: "lit (2 / 10) = Fin (3602879701896397 / 2 ^ 54)"
    unfolding lit_def
    by (rule binary64_eval [where k = "- 3" and e = "- 55" and m = 7205759403792794])
       (simp_all add: rne_def power_int_minus)
  have a: "js_mul (Fin (9 / 16)) (Fin 2) = Fin (9 / 8)"
    using binary64_div [of 9 3] by simp
  have b: "js_sub (Fin (9 / 8)) (Fin 1) = Fin (1 / 8)"
    using binary64_div [of 1 3] by (simp add: js_sub_def)
  have c: "js_mul (Fin (1 / 8)) (Fin (3602879701896397 / 2 ^ 54)) = Fin (3602879701896397 / 2 ^ 57)"
    using binary64_div [of 3602879701896397 57] by simp
  have d: "js_add (Fin 1) (Fin (3602879701896397 / 2 ^ 57)) = Fin (2308094809027379 / 2 ^ 51)"
    unfolding js_add.simps
    by (rule binary64_eval [where k = 0 and e = "- 52" and m = 4616189618054758])
       (simp_all add: rne_def power_int_minus)
  have e: "js_mul (Fin 3) (Fin 60) = Fin 180"
    using binary64_exact_int [of 180] by simp
  have f: "js_mul (Fin 180) (Fin (2308094809027379 / 2 ^ 51)) = Fin (6491516650389503 / 2 ^ 45)"
    unfolding js_mul.simps
    by (rule binary64_eval [where k = 7 and e = "- 45" and m = 6491516650389503])
       (simp_all add: rne_def power_int_minus)
  have g: "js_round (Fin (6491516650389503 / 2 ^ 45)) = Fin 184"
    by (simp add: Math_round_def)
  have pos: "js_gt (Fin (3602879701896397 / 2 ^ 54)) (Fin 0)" by (simp add: js_gt_def)
  show ?thesis
    unfolding calculateWaitTime_def Let_def dflt_def option.case
    using lit pos a b c d e f g
    by (simp add: js_max_def)
qed

text \<open>
  C1. For a whole position \<open>p \<ge> 0\<close> and a whole service time \<open>a > 0\<close>,
  \<^verbatim>\<open>calculateWaitTime(p, a, 0)\<close> returns the product \<^verbatim>\<open>p * a\<close> of the two numbers, which is
  the exact product \<open>p * a\<close> below \<open>2 ^ 53\<close>. For a variance \<open>v > 0\<close> and a draw \<open>r\<close> of the
  random source with \<open>0 \<le> r < 1\<close>, the factor \<open>f\<close> that the code computes from the draw
  lies between \<^verbatim>\<open>1 - v\<close> and \<^verbatim>\<open>1 + v\<close>, and the result is \<^verbatim>\<open>round(p * a * f)\<close> floored at 0,
  which is \<^verbatim>\<open>round(p * a * f)\<close> itself for \<open>v \<le> 1\<close>. For all arguments the result is not
  below 0, and a finite result is a whole number.
\<close>

theorem calculateWaitTime_spec:
  assumes "0 \<le> p" and "0 < a"
  shows
    "calculateWaitTime rnd (Fin (of_int p)) (Fin (of_int a)) (Some (Fin 0))
       = js_mul (Fin (of_int p)) (Fin (of_int a))
     \<and> (p * a < 2 ^ 53 \<longrightarrow>
          calculateWaitTime rnd (Fin (of_int p)) (Fin (of_int a)) (Some (Fin 0))
            = Fin (of_int (p * a)))
     \<and> (is_double v \<and> 0 < v \<and> 0 \<le> r \<and> r < 1 \<longrightarrow>
          (let f = js_add (Fin 1) (js_mul (js_sub (js_mul (Fin r) (Fin 2)) (Fin 1)) (Fin v));
               result = calculateWaitTime (Fin r) (Fin (of_int p)) (Fin (of_int a)) (Some (Fin v))
           in js_le (js_sub (Fin 1) (Fin v)) f \<and> js_le f (js_add (Fin 1) (Fin v))
              \<and> result = js_max (Fin 0)
                           (js_round (js_mul (js_mul (Fin (of_int p)) (Fin (of_int a))) f))
              \<and> (v \<le> 1 \<longrightarrow>
                   result = js_round (js_mul (js_mul (Fin (of_int p)) (Fin (of_int a))) f))))
     \<and> \<not> js_lt (calculateWaitTime rnd' x y var) (Fin 0)
     \<and> (\<forall>w. calculateWaitTime rnd' x y var = Fin w \<longrightarrow> (\<exists>k\<ge>0. w = of_int k))"
proof -
  let ?P = "Fin (of_int p)" and ?A = "Fin (of_int a)"
  have prod: "js_mul ?P ?A = PosInf \<or> (\<exists>k\<ge>0. js_mul ?P ?A = Fin (of_int k))"
    using assms by (intro js_mul_whole) simp_all
  have c1: "calculateWaitTime rnd ?P ?A (Some (Fin 0)) = js_mul ?P ?A"
    unfolding wait_no_variance using prod by (elim disjE exE conjE) (simp_all add: js_max_def)
  have c2: "calculateWaitTime rnd ?P ?A (Some (Fin 0)) = Fin (of_int (p * a))"
    if "p * a < 2 ^ 53"
  proof -
    have "0 \<le> p * a" using assms by simp
    then have "\<bar>p * a\<bar> < 2 ^ 53" using that by simp
    then have "binary64 (of_int (p * a)) = Fin (of_int (p * a))" by (rule binary64_exact_int)
    then show ?thesis unfolding c1 by simp
  qed
  have c3: "js_le (js_sub (Fin 1) (Fin v)) f \<and> js_le f (js_add (Fin 1) (Fin v))
            \<and> calculateWaitTime (Fin r) ?P ?A (Some (Fin v))
                = js_max (Fin 0) (js_round (js_mul (js_mul ?P ?A) f))
            \<and> (v \<le> 1 \<longrightarrow> calculateWaitTime (Fin r) ?P ?A (Some (Fin v))
                             = js_round (js_mul (js_mul ?P ?A) f))"
    if h: "is_double v" "0 < v" "0 \<le> r" "r < 1"
      and f: "f = js_add (Fin 1) (js_mul (js_sub (js_mul (Fin r) (Fin 2)) (Fin 1)) (Fin v))"
    for f
  proof (intro conjI impI)
    show "js_le (js_sub (Fin 1) (Fin v)) f" unfolding f using h by (rule varianceFactor_bounds)
    show "js_le f (js_add (Fin 1) (Fin v))" unfolding f using h by (rule varianceFactor_bounds)
    show r: "calculateWaitTime (Fin r) ?P ?A (Some (Fin v))
             = js_max (Fin 0) (js_round (js_mul (js_mul ?P ?A) f))"
      unfolding f using h(2) by (rule wait_variance)
    assume "v \<le> 1"
    then have "f = PosInf \<or> (\<exists>w\<ge>0. f = Fin w)"
      unfolding f using h by (intro varianceFactor_nonneg)
    moreover have "js_mul ?P ?A = PosInf \<or> (\<exists>y\<ge>0. js_mul ?P ?A = Fin y)"
      using prod by (elim disjE exE conjE) (auto intro: exI [of _ "of_int k" for k])
    ultimately have "js_mul (js_mul ?P ?A) f = NaN \<or> js_mul (js_mul ?P ?A) f = PosInf
                     \<or> (\<exists>y\<ge>0. js_mul (js_mul ?P ?A) f = Fin y)"
      by (intro js_mul_nonneg)
    then have "js_max (Fin 0) (js_round (js_mul (js_mul ?P ?A) f))
               = js_round (js_mul (js_mul ?P ?A) f)"
      by (intro js_max_0_keep js_round_keep)
    then show "calculateWaitTime (Fin r) ?P ?A (Some (Fin v))
               = js_round (js_mul (js_mul ?P ?A) f)"
      using r by simp
  qed
  show ?thesis
    unfolding Let_def
    using c1 c2 c3 wait_floored [of rnd' x y var] wait_rounded [of rnd' x y var]
    by (intro conjI impI allI) blast+
qed

theorem calculateWaitTime_spec_witness:
  "calculateWaitTime (Fin (1 / 4)) (Fin 3) (Fin 60) (Some (Fin 0)) = Fin 180
   \<and> js_le (js_sub (Fin 1) (Fin (1 / 4)))
        (js_add (Fin 1) (js_mul (js_sub (js_mul (Fin (1 / 4)) (Fin 2)) (Fin 1)) (Fin (1 / 4))))
   \<and> calculateWaitTime (Fin (1 / 4)) (Fin 3) (Fin 60) (Some (Fin (1 / 4)))
       = js_round (js_mul (js_mul (Fin 3) (Fin 60))
           (js_add (Fin 1) (js_mul (js_sub (js_mul (Fin (1 / 4)) (Fin 2)) (Fin 1)) (Fin (1 / 4)))))"
proof -
  have d: "is_double (1 / 4)" using is_double_div [of 1 2] by simp
  note t = calculateWaitTime_spec [where p = 3 and a = 60 and rnd = "Fin (1 / 4)"
      and v = "1 / 4" and r = "1 / 4" and rnd' = NaN and x = NaN and y = NaN and var = None,
      unfolded Let_def]
  have t': "calculateWaitTime (Fin (1 / 4)) (Fin (of_int 3)) (Fin (of_int 60)) (Some (Fin 0))
              = Fin (of_int (3 * 60))
            \<and> js_le (js_sub (Fin 1) (Fin (1 / 4)))
                (js_add (Fin 1) (js_mul (js_sub (js_mul (Fin (1 / 4)) (Fin 2)) (Fin 1)) (Fin (1 / 4))))
            \<and> calculateWaitTime (Fin (1 / 4)) (Fin (of_int 3)) (Fin (of_int 60)) (Some (Fin (1 / 4)))
                = js_round (js_mul (js_mul (Fin (of_int 3)) (Fin (of_int 60)))
                    (js_add (Fin 1) (js_mul (js_sub (js_mul (Fin (1 / 4)) (Fin 2)) (Fin 1)) (Fin (1 / 4)))))"
    using t d by fastforce
  have e: "Fin (of_int 3) = Fin 3" "Fin (of_int 60) = Fin 60" "Fin (of_int (3 * 60)) = Fin 180"
    by simp_all
  show ?thesis using t' unfolding e .
qed

subsection \<open>Recommended leave time\<close>

lemma js_min_commute: "js_min a b = js_min b a"
  by (cases a; cases b) (auto simp add: js_min_def)

lemma default_buffers:
  "js_mul (Fin 5) (Fin 60) = Fin 300" "js_mul (Fin 30) (Fin 60) = Fin 1800"
  using binary64_exact_int [of 300] binary64_exact_int [of 1800] by simp_all

lemma leave_estimatedWaitTime:
  "estimatedWaitTime (calculateRecommendedLeaveTime rnd now x a t opts)
   = calculateWaitTime rnd x a (Some (dflt (lit 0.2) (opt_varianceServiceTime opts)))"
  by (simp add: calculateRecommendedLeaveTime_def Let_def)

lemma leave_bufferTime:
  "bufferTime (calculateRecommendedLeaveTime rnd now x a t opts)
   = js_min (js_max (js_round (js_mul
         (estimatedWaitTime (calculateRecommendedLeaveTime rnd now x a t opts))
         (dflt (lit 0.2) (opt_bufferTime opts))))
       (dflt (Fin 300) (opt_minBufferTime opts)))
     (dflt (Fin 1800) (opt_maxBufferTime opts))"
  unfolding leave_estimatedWaitTime
  by (simp only: calculateRecommendedLeaveTime_def Let_def default_buffers
      LeaveTimeRecommendation.simps)

lemma leave_recommendedLeaveIn:
  "recommendedLeaveIn (calculateRecommendedLeaveTime rnd now x a t opts)
   = js_max (Fin 0) (js_sub (js_sub
       (estimatedWaitTime (calculateRecommendedLeaveTime rnd now x a t opts)) t)
       (bufferTime (calculateRecommendedLeaveTime rnd now x a t opts)))"
  by (simp only: calculateRecommendedLeaveTime_def Let_def LeaveTimeRecommendation.simps)

lemma leave_leaveAt:
  "leaveAt (calculateRecommendedLeaveTime rnd now x a t opts)
   = TimeClip (js_add (dflt now (opt_currentTime opts))
       (js_mul (recommendedLeaveIn (calculateRecommendedLeaveTime rnd now x a t opts))
          (Fin 1000)))"
  by (simp only: calculateRecommendedLeaveTime_def Let_def LeaveTimeRecommendation.simps)

lemma leave_confidence:
  "confidence (calculateRecommendedLeaveTime rnd now x a t opts)
   = (if js_gt x (Fin 20) then low else if js_gt x (Fin 10) then medium else high)"
  by (simp only: calculateRecommendedLeaveTime_def Let_def LeaveTimeRecommendation.simps)

lemma js_max_0_not_negative: "\<not> js_lt (js_max (Fin 0) y) (Fin 0)"
  by (cases y) (simp_all add: js_max_def)

lemma js_gt_20_10: "js_gt x (Fin 20) \<Longrightarrow> js_gt x (Fin 10)"
  by (cases x) (simp_all add: js_gt_def)

lemma TimeClip_whole:
  assumes "\<bar>n\<bar> \<le> 8640000000000000"
  shows "TimeClip (Fin (of_int n)) = Fin (of_int n)"
proof -
  have "\<bar>real_of_int n\<bar> \<le> 8640000000000000"
    using assms by (metis of_int_abs of_int_le_numeral_iff)
  then show ?thesis by (simp add: TimeClip_def Math_trunc_def)
qed

lemma leaveAt_whole:
  assumes "0 \<le> l" and "l * 1000 < 2 ^ 53" and "\<bar>c + l * 1000\<bar> \<le> 8640000000000000"
  shows "TimeClip (js_add (Fin (of_int c)) (js_mul (Fin (of_int l)) (Fin 1000)))
         = Fin (of_int (c + l * 1000))"
proof -
  have "\<bar>l * 1000\<bar> < 2 ^ 53" using assms by simp
  then have m: "binary64 (of_int (l * 1000)) = Fin (of_int (l * 1000))"
    by (rule binary64_exact_int)
  have "\<bar>c + l * 1000\<bar> < 2 ^ 53" using assms(3) by simp
  then have s: "binary64 (of_int (c + l * 1000)) = Fin (of_int (c + l * 1000))"
    by (rule binary64_exact_int)
  have "js_mul (Fin (of_int l)) (Fin 1000) = Fin (of_int (l * 1000))"
    using m by simp
  moreover have "js_add (Fin (of_int c)) (Fin (of_int (l * 1000))) = Fin (of_int (c + l * 1000))"
    using s by simp
  ultimately show ?thesis using TimeClip_whole [OF assms(3)] by simp
qed

lemma lit_02: "lit (2 / 10) = Fin (3602879701896397 / 2 ^ 54)"
  unfolding lit_def
  by (rule binary64_eval [where k = "- 3" and e = "- 55" and m = 7205759403792794])
     (simp_all add: rne_def power_int_minus)

lemma wait_600: "calculateWaitTime rnd (Fin 10) (Fin 60) (Some (Fin 0)) = Fin 600"
  unfolding wait_no_variance using binary64_exact_int [of 600]
  by (simp add: js_max_def Math_round_def)

lemma buffer_of_600:
  "js_min (js_max (js_round (js_mul (Fin 600) (lit (2 / 10)))) (Fin 300)) (Fin 1800) = Fin 300"
proof -
  have "js_mul (Fin 600) (Fin (3602879701896397 / 2 ^ 54)) = Fin 120"
    unfolding js_mul.simps
    by (rule binary64_eval [where k = 6 and e = "- 46" and m = 8444249301319680])
       (simp_all add: rne_def power_int_minus)
  then show ?thesis unfolding lit_02 by (simp add: js_max_def js_min_def Math_round_def)
qed

lemma leaveIn_example:
  "js_max (Fin 0) (js_sub (js_sub (Fin 600) (Fin (1 / 16))) (Fin 300)) = Fin (4799 / 16)"
proof -
  have "js_sub (Fin 600) (Fin (1 / 16)) = Fin (9599 / 16)"
    using binary64_div [of 9599 4] by (simp add: js_sub_def)
  moreover have "js_sub (Fin (9599 / 16)) (Fin 300) = Fin (4799 / 16)"
    using binary64_div [of 4799 4] by (simp add: js_sub_def)
  ultimately show ?thesis by (simp add: js_max_def)
qed

lemma leaveAt_example:
  "js_add (Fin 0) (js_mul (Fin (4799 / 16)) (Fin 1000)) = Fin (599875 / 2)"
  "TimeClip (Fin (599875 / 2)) = Fin 299937"
  using binary64_div [of 599875 1] by (simp_all add: TimeClip_def Math_trunc_def)

text \<open>
  C2, as stated, fails: the leave-at timestamp is not the current time plus the
  leave-in seconds when that sum is not a whole number of milliseconds. At position 10
  with a service time of 60 s, a travel time of 0.0625 s, no variance and the current time
  0, the leave-in seconds are 299.9375 and the timestamp is 299937 ms, not 299937.5 ms.
\<close>

theorem leaveAt_not_exact:
  "recommendedLeaveIn (calculateRecommendedLeaveTime (Fin 0) (Fin 0) (Fin 10) (Fin 60)
       (Fin (1 / 16))
       \<lparr>opt_varianceServiceTime = Some (Fin 0), opt_bufferTime = None,
        opt_minBufferTime = None, opt_maxBufferTime = None, opt_currentTime = Some (Fin 0)\<rparr>)
     = Fin (4799 / 16)
   \<and> leaveAt (calculateRecommendedLeaveTime (Fin 0) (Fin 0) (Fin 10) (Fin 60)
       (Fin (1 / 16))
       \<lparr>opt_varianceServiceTime = Some (Fin 0), opt_bufferTime = None,
        opt_minBufferTime = None, opt_maxBufferTime = None, opt_currentTime = Some (Fin 0)\<rparr>)
     = Fin 299937
   \<and> js_add (Fin 0) (js_mul (Fin (4799 / 16)) (Fin 1000)) = Fin (599875 / 2)
   \<and> Fin 299937 \<noteq> Fin (599875 / 2)"
proof -
  let ?o = "\<lparr>opt_varianceServiceTime = Some (Fin 0), opt_bufferTime = None,
        opt_minBufferTime = None, opt_maxBufferTime = None, opt_currentTime = Some (Fin 0)\<rparr>"
  let ?r = "calculateRecommendedLeaveTime (Fin 0) (Fin 0) (Fin 10) (Fin 60) (Fin (1 / 16)) ?o"
  have e: "estimatedWaitTime ?r = Fin 600"
    unfolding leave_estimatedWaitTime by (simp add: dflt_def wait_600)
  have b: "bufferTime ?r = Fin 300"
    unfolding leave_bufferTime e using buffer_of_600 by (simp add: dflt_def)
  have l: "recommendedLeaveIn ?r = Fin (4799 / 16)"
    unfolding leave_recommendedLeaveIn e b by (rule leaveIn_example)
  have a: "leaveAt ?r = Fin 299937"
    unfolding leave_leaveAt l by (simp only: dflt_def option.case LeaveTimeOptions.simps leaveAt_example)
  show ?thesis using l a leaveAt_example(1) by simp
qed

text \<open>
  C2, amended. For every call \<^verbatim>\<open>calculateRecommendedLeaveTime(position, averageServiceTime,
  travelTime, options)\<close>: the buffer is \<^verbatim>\<open>min(maxBufferTime, max(round(estimatedWaitTime *
  bufferFraction), minBufferTime))\<close> with the defaults 0.2, 300 and 1800; the leave-in
  seconds are \<^verbatim>\<open>max(0, estimatedWaitTime - travelTime - bufferTime)\<close> and never negative;
  the leave-at timestamp is the current time plus the leave-in seconds in milliseconds,
  truncated to a whole millisecond (and an invalid date beyond 8.64e15 ms), which is
  exactly the current time plus the leave-in seconds when these are whole and the sum is
  in the range of dates; the confidence depends on the position only, and for a position
  other than \<^verbatim>\<open>NaN\<close> it is high exactly for \<open>position \<le> 10\<close>, medium exactly for
  \<open>10 < position \<le> 20\<close> (11 to 20 for a whole position) and low exactly for
  \<open>position > 20\<close>.
\<close>

theorem calculateRecommendedLeaveTime_spec:
  "(let r = calculateRecommendedLeaveTime rnd now x a t opts;
        cur = dflt now (opt_currentTime opts)
    in estimatedWaitTime r
         = calculateWaitTime rnd x a (Some (dflt (lit 0.2) (opt_varianceServiceTime opts)))
       \<and> bufferTime r
           = js_min (dflt (Fin 1800) (opt_maxBufferTime opts))
               (js_max (js_round (js_mul (estimatedWaitTime r)
                                    (dflt (lit 0.2) (opt_bufferTime opts))))
                  (dflt (Fin 300) (opt_minBufferTime opts)))
       \<and> recommendedLeaveIn r
           = js_max (Fin 0) (js_sub (js_sub (estimatedWaitTime r) t) (bufferTime r))
       \<and> \<not> js_lt (recommendedLeaveIn r) (Fin 0)
       \<and> leaveAt r = TimeClip (js_add cur (js_mul (recommendedLeaveIn r) (Fin 1000)))
       \<and> (\<forall>c l. cur = Fin (of_int c) \<and> recommendedLeaveIn r = Fin (of_int l)
                  \<and> l * 1000 < 2 ^ 53 \<and> \<bar>c + l * 1000\<bar> \<le> 8640000000000000
             \<longrightarrow> leaveAt r = Fin (of_int (c + l * 1000)))
       \<and> (confidence r = high) = (\<not> js_gt x (Fin 10))
       \<and> (confidence r = medium) = (js_gt x (Fin 10) \<and> \<not> js_gt x (Fin 20))
       \<and> (confidence r = low) = js_gt x (Fin 20)
       \<and> (x \<noteq> NaN \<longrightarrow>
            (confidence r = high) = js_le x (Fin 10)
            \<and> (confidence r = medium) = (js_gt x (Fin 10) \<and> js_le x (Fin 20)))
       \<and> (\<forall>p. x = Fin (of_int p) \<longrightarrow>
            (confidence r = high) = (p \<le> 10)
            \<and> (confidence r = medium) = (11 \<le> p \<and> p \<le> 20)
            \<and> (confidence r = low) = (p > 20))
       \<and> confidence r = confidence (calculateRecommendedLeaveTime rnd' now' x a' t' opts'))"
proof -
  let ?r = "calculateRecommendedLeaveTime rnd now x a t opts"
  have buf: "bufferTime ?r
           = js_min (dflt (Fin 1800) (opt_maxBufferTime opts))
               (js_max (js_round (js_mul (estimatedWaitTime ?r)
                                    (dflt (lit 0.2) (opt_bufferTime opts))))
                  (dflt (Fin 300) (opt_minBufferTime opts)))"
    by (subst js_min_commute) (rule leave_bufferTime)
  have nonneg: "\<not> js_lt (recommendedLeaveIn ?r) (Fin 0)"
    unfolding leave_recommendedLeaveIn by (rule js_max_0_not_negative)
  have whole: "leaveAt ?r = Fin (of_int (c + l * 1000))"
    if "dflt now (opt_currentTime opts) = Fin (of_int c)"
      and "recommendedLeaveIn ?r = Fin (of_int l)"
      and "l * 1000 < 2 ^ 53" and "\<bar>c + l * 1000\<bar> \<le> 8640000000000000" for c l
  proof -
    have "0 \<le> l" using nonneg that(2) by simp
    then show ?thesis
      unfolding leave_leaveAt that(1) that(2) using that(3,4) by (rule leaveAt_whole)
  qed
  have c1: "(confidence ?r = high) = (\<not> js_gt x (Fin 10))"
    and c2: "(confidence ?r = medium) = (js_gt x (Fin 10) \<and> \<not> js_gt x (Fin 20))"
    and c3: "(confidence ?r = low) = js_gt x (Fin 20)"
    unfolding leave_confidence using js_gt_20_10 [of x] by auto
  have c4: "(confidence ?r = high) = js_le x (Fin 10)
            \<and> (confidence ?r = medium) = (js_gt x (Fin 10) \<and> js_le x (Fin 20))"
    if "x \<noteq> NaN"
    unfolding c1 c2 using that by (cases x) (auto simp add: js_gt_def js_le_def)
  have c5: "(confidence ?r = high) = (p \<le> 10)
            \<and> (confidence ?r = medium) = (11 \<le> p \<and> p \<le> 20)
            \<and> (confidence ?r = low) = (p > 20)"
    if "x = Fin (of_int p)" for p
    using c1 c2 c3 that by (auto simp add: js_gt_def)
  have c6: "confidence ?r = confidence (calculateRecommendedLeaveTime rnd' now' x a' t' opts')"
    unfolding leave_confidence ..
  show ?thesis
    unfolding Let_def
    using leave_estimatedWaitTime [of rnd now x a t opts] buf
      leave_recommendedLeaveIn [of rnd now x a t opts] nonneg
      leave_leaveAt [of rnd now x a t opts] whole c1 c2 c3 c4 c5 c6
    by (intro conjI impI allI) blast+
qed

theorem calculateRecommendedLeaveTime_spec_witness:
  "leaveAt (calculateRecommendedLeaveTime (Fin 0) (Fin 0) (Fin 10) (Fin 60) (Fin 100)
       \<lparr>opt_varianceServiceTime = Some (Fin 0), opt_bufferTime = None,
        opt_minBufferTime = None, opt_maxBufferTime = None, opt_currentTime = Some (Fin 5)\<rparr>)
     = Fin 200005
   \<and> confidence (calculateRecommendedLeaveTime (Fin 0) (Fin 0) (Fin 10) (Fin 60) (Fin 100)
       \<lparr>opt_varianceServiceTime = Some (Fin 0), opt_bufferTime = None,
        opt_minBufferTime = None, opt_maxBufferTime = None, opt_currentTime = Some (Fin 5)\<rparr>)
     = high"
proof -
  let ?o = "\<lparr>opt_varianceServiceTime = Some (Fin 0), opt_bufferTime = None,
        opt_minBufferTime = None, opt_maxBufferTime = None, opt_currentTime = Some (Fin 5)\<rparr>"
  let ?r = "calculateRecommendedLeaveTime (Fin 0) (Fin 0) (Fin 10) (Fin 60) (Fin 100) ?o"
  note t = calculateRecommendedLeaveTime_spec [where rnd = "Fin 0" and now = "Fin 0"
      and x = "Fin 10" and a = "Fin 60" and t = "Fin 100" and opts = ?o
      and rnd' = "Fin 0" and now' = "Fin 0" and a' = "Fin 60" and t' = "Fin 100" and opts' = ?o,
      unfolded Let_def]
  have e: "estimatedWaitTime ?r = Fin 600"
    using t by (simp add: dflt_def wait_600)
  have b: "bufferTime ?r = Fin 300"
    using t buffer_of_600 unfolding e by (simp add: dflt_def js_min_commute)
  have "js_sub (js_sub (Fin 600) (Fin 100)) (Fin 300) = Fin 200"
    using binary64_exact_int [of 500] binary64_exact_int [of 200] by (simp add: js_sub_def)
  then have l: "recommendedLeaveIn ?r = Fin (of_int 200)"
    using t unfolding e b by (simp add: js_max_def)
  have c: "dflt (Fin 0) (opt_currentTime ?o) = Fin (of_int 5)" by (simp add: dflt_def)
  have w: "\<forall>c l. dflt (Fin 0) (opt_currentTime ?o) = Fin (of_int c)
                  \<and> recommendedLeaveIn ?r = Fin (of_int l)
                  \<and> l * 1000 < 2 ^ 53 \<and> \<bar>c + l * 1000\<bar> \<le> 8640000000000000
             \<longrightarrow> leaveAt ?r = Fin (of_int (c + l * 1000))"
    using t by blast
  have "leaveAt ?r = Fin (of_int (5 + 200 * 1000))"
    using w [rule_format, of 5 200] c l by simp
  moreover have "confidence ?r = high" using t by (simp add: js_gt_def)
  ultimately show ?thesis by simp
qed

subsection \<open>Position arithmetic\<close>



subsection \<open>Queue entry status\<close>

text \<open>
  C9. The predicates \<open>isActiveStatus\<close> and \<open>isCompletedStatus\<close> partition the five
  statuses: \<open>WAITING\<close> and \<open>CALLED\<close> are active, \<open>SERVED\<close>, \<open>NOSHOW\<close> and \<open>CANCELLED\<close> are
  completed, and every status satisfies exactly one of the two predicates.
\<close>

theorem status_partition:
  "isActiveStatus s = (s = WAITING \<or> s = CALLED)
   \<and> isCompletedStatus s = (s = SERVED \<or> s = NOSHOW \<or> s = CANCELLED)
   \<and> isActiveStatus s = (\<not> isCompletedStatus s)"
  by (cases s) (simp_all add: isActiveStatus_def isCompletedStatus_def)

end
